theory Spec2Isabelle
  imports Main
begin

section \<open>The session lifecycle of \<^verbatim>\<open>backend/src/libs/wbot.ts\<close>\<close>

text \<open>
  The module keeps one registry of chat-engine clients (\<^verbatim>\<open>sessions\<close>) and, for every
  call of \<^verbatim>\<open>initWbot\<close>, a closure holding the account object \<^verbatim>\<open>whatsapp\<close>, the client
  \<^verbatim>\<open>wbot\<close>, the two settle functions of the returned promise and the five event handlers.
  The embedding is a state machine over a record of that state. JavaScript objects are
  references: a client is modelled by its reference, and the one field the module writes
  on it (\<^verbatim>\<open>id\<close>) lives in a store from references to values. An event handler is run to
  its end before the next one starts. \<^verbatim>\<open>removeWbot\<close> is the one function that reads the
  registry before an \<^verbatim>\<open>await\<close> and writes it with what it read after the \<^verbatim>\<open>await\<close>: there,
  what the rest of the program does to the state in the meantime is an argument of the
  model. What the chat engine, the message listener and the environment answer is read
  from a record of outcomes, so that every \<^verbatim>\<open>throw\<close> of the source is a value.
\<close>

subsection \<open>Data\<close>

text \<open>A \<^verbatim>\<open>Session\<close> is a \<^verbatim>\<open>Client\<close> object with an optional \<^verbatim>\<open>id\<close>: here the reference of
  the object. Its \<^verbatim>\<open>id\<close> field is \<open>session_id\<close> of the state below.\<close>

type_synonym Session = nat

type_synonym Message = string

text \<open>Thrown values: the module's own \<^verbatim>\<open>AppError\<close>, and whatever a collaborator throws.\<close>

datatype Error = AppError string | Thrown string

text \<open>The account model \<^verbatim>\<open>Whatsapp\<close>, with the fields the module reads or writes.
  \<^verbatim>\<open>id\<close> is \<open>whatsapp_id\<close> (\<open>id\<close> is the identity function of HOL); \<^verbatim>\<open>session\<close> is nullable.
  \<^verbatim>\<open>retries\<close> is an integer column, far inside the range where a JavaScript number adds
  exactly.\<close>

record Whatsapp =
  whatsapp_id :: int
  name :: string
  session :: "string option"
  status :: string
  qrcode :: string
  retries :: int

datatype Promise = Pending | Resolved Session | Rejected Error

text \<open>The payload \<^verbatim>\<open>{ action, session }\<close> of \<^verbatim>\<open>io.emit\<close>; the socket layer serialises the
  account when \<^verbatim>\<open>emit\<close> is called, so the payload holds its value at that moment.\<close>

record Update_Message =
  action :: string
  session_snapshot :: Whatsapp

text \<open>A conversation as \<^verbatim>\<open>syncUnreadMessages\<close> uses it: \<^verbatim>\<open>fetchMessages({limit})\<close> and
  \<^verbatim>\<open>sendSeen()\<close> carry what the engine answers; \<open>chat_id\<close> names the chat in the trace.\<close>

record Chat =
  chat_id :: nat
  unreadCount :: int
  fetchMessages :: "int \<Rightarrow> Error + Message list"
  sendSeen :: "Error option"

text \<open>The calls the module makes on its collaborators, in the order it makes them.\<close>

datatype Call =
    Initialize Session
  | Destroy Session
  | Sleep nat
  | SendPresenceAvailable Session
  | GetChats Session
  | FetchMessages nat int
  | HandleMessage Message Session
  | SendSeen nat
  | QrCodeGenerate string

text \<open>One constructor for each \<^verbatim>\<open>logger\<close> call of the source.\<close>

datatype LogMsg =
    ErrorDestroying Error
  | AttemptFailed nat nat
  | AttemptingReconnect string
  | ReconnectionFailed Error
  | SessionInfo string
  | SessionAuthenticated string
  | AuthenticationFailure string string
  | SessionDisconnected string string
  | SessionReady string
  | InitializationFailed Error
  | Logged Error

datatype Callback = Reconnect

text \<open>The state: the closure of one \<^verbatim>\<open>initWbot\<close> call (\<open>whatsapp\<close>, \<open>wbot\<close>, \<open>sessionName\<close>,
  \<open>promise\<close>), the module-level registry (\<open>sessions\<close>) with the \<^verbatim>\<open>id\<close> field of every client
  (\<open>session_id\<close>), and what has been sent out: socket messages, pending \<^verbatim>\<open>setTimeout\<close>
  callbacks with their delay, collaborator calls, log lines, and the errors that left an
  event handler (unhandled rejections).\<close>

record World =
  whatsapp :: Whatsapp
  wbot :: Session
  sessionName :: string
  promise :: Promise
  sessions :: "Session list"
  session_id :: "Session \<Rightarrow> int option"
  emitted :: "(string \<times> Update_Message) list"
  timers :: "(Callback \<times> nat) list"
  calls :: "Call list"
  logs :: "LogMsg list"
  unhandled :: "Error list"

text \<open>What the collaborators answer while one handler runs: \<open>initialize env k\<close> is the
  outcome of \<^verbatim>\<open>wbot.initialize()\<close> in the attempt made with \<^verbatim>\<open>retries\<close> = \<open>k\<close>, \<open>destroy env s\<close>
  that of \<^verbatim>\<open>destroy()\<close> on client \<open>s\<close> (\<open>None\<close>: no throw).\<close>

record Env =
  initialize :: "nat \<Rightarrow> Error option"
  destroy :: "Session \<Rightarrow> Error option"
  getChats :: "Error + Chat list"
  handleMessage :: "Message \<Rightarrow> Error option"
  getIO :: "Error option"
  JSON_parse :: "string \<Rightarrow> Error option"
  new_Client :: "Error option"

definition MAX_RETRIES :: nat where
  "MAX_RETRIES = 5"

definition RECONNECT_INTERVAL :: nat where
  "RECONNECT_INTERVAL = 5000"

subsection \<open>Array operations\<close>

text \<open>\<^verbatim>\<open>Array.prototype.findIndex\<close>: the index of the first element that satisfies the
  predicate, \<open>-1\<close> when there is none.\<close>

fun findIndex :: "('a \<Rightarrow> bool) \<Rightarrow> 'a list \<Rightarrow> int" where
  "findIndex P [] = - 1"
| "findIndex P (x # xs) =
     (if P x then 0
      else (let i = findIndex P xs in if i = - 1 then - 1 else i + 1))"

text \<open>\<^verbatim>\<open>Array.prototype.splice(start, deleteCount)\<close> with no inserted items: a negative
  \<open>start\<close> counts from the end, and the start is clamped to the array.\<close>

definition splice :: "'a list \<Rightarrow> int \<Rightarrow> nat \<Rightarrow> 'a list" where
  "splice xs start deleteCount =
     (let len = int (length xs);
          s = (if start < 0 then max (len + start) 0 else min start len)
      in take (nat s) xs @ drop (nat s + deleteCount) xs)"

subsection \<open>Primitive effects\<close>

text \<open>Modelled from the spec: the logger (\<^verbatim>\<open>../utils/logger\<close>) and the socket server
  (\<^verbatim>\<open>./socket\<close>) are not among the sources. A log line and an emitted message are recorded
  in the order they are made, and neither call fails. \<open>call\<close> records a call on the engine,
  on the console or on the message listener.\<close>

definition logger :: "LogMsg \<Rightarrow> World \<Rightarrow> World" where
  "logger m w = w\<lparr>logs := logs w @ [m]\<rparr>"

definition call :: "Call \<Rightarrow> World \<Rightarrow> World" where
  "call c w = w\<lparr>calls := calls w @ [c]\<rparr>"

text \<open>Modelled from the spec: \<^verbatim>\<open>Whatsapp.update\<close> belongs to \<^verbatim>\<open>../models/Whatsapp\<close>, which is
  not among the sources. The spec takes the update as atomic and durable: it sets the
  given fields on the account object and stores them, and does not fail.\<close>

definition update :: "(Whatsapp \<Rightarrow> Whatsapp) \<Rightarrow> World \<Rightarrow> World" where
  "update f w = w\<lparr>whatsapp := f (whatsapp w)\<rparr>"

text \<open>\<^verbatim>\<open>io.emit("whatsappSession", { action: "update", session: whatsapp })\<close>.\<close>

definition io_emit :: "World \<Rightarrow> World" where
  "io_emit w =
     w\<lparr>emitted := emitted w @
        [(''whatsappSession'', \<lparr>action = ''update'', session_snapshot = whatsapp w\<rparr>)]\<rparr>"

definition setTimeout :: "Callback \<Rightarrow> nat \<Rightarrow> World \<Rightarrow> World" where
  "setTimeout cb ms w = w\<lparr>timers := timers w @ [(cb, ms)]\<rparr>"

text \<open>\<^verbatim>\<open>await wbot.initialize()\<close> and \<^verbatim>\<open>await wbot.destroy()\<close>: the call is recorded, and the
  result is the error thrown, if any.\<close>

definition wbot_initialize :: "Env \<Rightarrow> Session \<Rightarrow> nat \<Rightarrow> World \<Rightarrow> (Error + unit) \<times> World" where
  "wbot_initialize env s k w =
     (case initialize env k of None \<Rightarrow> Inr () | Some error \<Rightarrow> Inl error, call (Initialize s) w)"

definition wbot_destroy :: "Env \<Rightarrow> Session \<Rightarrow> World \<Rightarrow> (Error + unit) \<times> World" where
  "wbot_destroy env s w =
     (case destroy env s of None \<Rightarrow> Inr () | Some error \<Rightarrow> Inl error, call (Destroy s) w)"

subsection \<open>The functions of the module\<close>

text \<open>\<^verbatim>\<open>destroyClient\<close> (lines 17-23): the \<^verbatim>\<open>catch\<close> logs the error and returns.\<close>

definition destroyClient :: "Env \<Rightarrow> Session \<Rightarrow> World \<Rightarrow> (Error + unit) \<times> World" where
  "destroyClient env s w =
     (case wbot_destroy env s w of
        (Inr u, w1) \<Rightarrow> (Inr (), w1)
      | (Inl error, w1) \<Rightarrow> (Inr (), logger (ErrorDestroying error) w1))"

text \<open>\<^verbatim>\<open>initializeWithRetry\<close> (lines 25-36); the parameter \<^verbatim>\<open>retries\<close> is \<open>retries'\<close>
  here (\<open>retries\<close> is the account's field), and the callers leave it at its default 0.\<close>

function initializeWithRetry :: "Env \<Rightarrow> Session \<Rightarrow> nat \<Rightarrow> World \<Rightarrow> (Error + unit) \<times> World" where
  "initializeWithRetry env s retries' w =
     (case wbot_initialize env s retries' w of
        (Inr u, w1) \<Rightarrow> (Inr (), w1)
      | (Inl error, w1) \<Rightarrow>
          if retries' < MAX_RETRIES then
            initializeWithRetry env s (retries' + 1)
              (call (Sleep RECONNECT_INTERVAL)
                 (logger (AttemptFailed (retries' + 1) (RECONNECT_INTERVAL div 1000)) w1))
          else (Inl error, w1))"
  by pat_completeness auto
termination
  by (relation "measure (\<lambda>(env, s, retries', w). MAX_RETRIES - retries')") auto

declare initializeWithRetry.simps [simp del]

text \<open>\<^verbatim>\<open>getWbot\<close> (lines 204-211).\<close>

definition getWbot :: "int \<Rightarrow> World \<Rightarrow> Error + Session" where
  "getWbot whatsappId w =
     (let sessionIndex = findIndex (\<lambda>s. session_id w s = Some whatsappId) (sessions w)
      in if sessionIndex = - 1 then Inl (AppError ''ERR_WAPP_NOT_INITIALIZED'')
         else Inr (sessions w ! nat sessionIndex))"

text \<open>\<^verbatim>\<open>removeWbot\<close> (lines 213-223): the body of the \<^verbatim>\<open>try\<close>, then the \<^verbatim>\<open>catch\<close> that logs.
  Line 215 reads the index, line 217 suspends the call until the client is destroyed,
  and line 218 splices the registry as it is then, at the index read in line 215.
  \<open>during\<close> is what the event handlers and the other calls that run while this call is
  suspended do to the state; \<open>\<lambda>w. w\<close> is a call that nothing overlaps. When the id is not
  found the body has no \<^verbatim>\<open>await\<close>.\<close>

definition removeWbot_try ::
  "Env \<Rightarrow> int \<Rightarrow> (World \<Rightarrow> World) \<Rightarrow> World \<Rightarrow> (Error + unit) \<times> World" where
  "removeWbot_try env whatsappId during w =
     (let sessionIndex = findIndex (\<lambda>s. session_id w s = Some whatsappId) (sessions w)
      in if sessionIndex \<noteq> - 1 then
           (case destroyClient env (sessions w ! nat sessionIndex) w of
              (Inl err, w1) \<Rightarrow> (Inl err, w1)
            | (Inr u, w1) \<Rightarrow>
                (Inr (), (during w1)\<lparr>sessions := splice (sessions (during w1)) sessionIndex 1\<rparr>))
         else (Inr (), w))"

definition removeWbot ::
  "Env \<Rightarrow> int \<Rightarrow> (World \<Rightarrow> World) \<Rightarrow> World \<Rightarrow> (Error + unit) \<times> World" where
  "removeWbot env whatsappId during w =
     (case removeWbot_try env whatsappId during w of
        (Inr u, w1) \<Rightarrow> (Inr (), w1)
      | (Inl err, w1) \<Rightarrow> (Inr (), logger (Logged err) w1))"

text \<open>\<^verbatim>\<open>syncUnreadMessages\<close> (lines 38-56). The inner loop hands every message to the
  listener, the outer loop goes through the chats; the first throw ends both.\<close>

fun handleMessages :: "Env \<Rightarrow> Session \<Rightarrow> Message list \<Rightarrow> World \<Rightarrow> (Error + unit) \<times> World" where
  "handleMessages env s [] w = (Inr (), w)"
| "handleMessages env s (msg # msgs) w =
     (case handleMessage env msg of
        Some error \<Rightarrow> (Inl error, call (HandleMessage msg s) w)
      | None \<Rightarrow> handleMessages env s msgs (call (HandleMessage msg s) w))"

fun syncChats :: "Env \<Rightarrow> Session \<Rightarrow> Chat list \<Rightarrow> World \<Rightarrow> (Error + unit) \<times> World" where
  "syncChats env s [] w = (Inr (), w)"
| "syncChats env s (chat # chats) w =
     (if unreadCount chat > 0 then
        (case fetchMessages chat (unreadCount chat) of
           Inl error \<Rightarrow> (Inl error, call (FetchMessages (chat_id chat) (unreadCount chat)) w)
         | Inr unreadMessages \<Rightarrow>
             (case handleMessages env s unreadMessages
                     (call (FetchMessages (chat_id chat) (unreadCount chat)) w) of
                (Inl error, w1) \<Rightarrow> (Inl error, w1)
              | (Inr u, w1) \<Rightarrow>
                  (case sendSeen chat of
                     Some error \<Rightarrow> (Inl error, call (SendSeen (chat_id chat)) w1)
                   | None \<Rightarrow> syncChats env s chats (call (SendSeen (chat_id chat)) w1))))
      else syncChats env s chats w)"

definition syncUnreadMessages :: "Env \<Rightarrow> Session \<Rightarrow> World \<Rightarrow> (Error + unit) \<times> World" where
  "syncUnreadMessages env s w =
     (case getChats env of
        Inl error \<Rightarrow> (Inl error, call (GetChats s) w)
      | Inr chats \<Rightarrow> syncChats env s chats (call (GetChats s) w))"

text \<open>The settle functions of the promise \<^verbatim>\<open>initWbot\<close> returns: a settled promise stays as
  it is.\<close>

definition resolve :: "Session \<Rightarrow> World \<Rightarrow> World" where
  "resolve s w = (if promise w = Pending then w\<lparr>promise := Resolved s\<rparr> else w)"

definition reject :: "Error \<Rightarrow> World \<Rightarrow> World" where
  "reject e w = (if promise w = Pending then w\<lparr>promise := Rejected e\<rparr> else w)"

text \<open>\<^verbatim>\<open>reconnect\<close> (lines 87-104). \<^verbatim>\<open>wbot\<close> is the \<^verbatim>\<open>const\<close> of the closure: the client that
  is destroyed is the one that is initialised again.\<close>

definition reconnect :: "Env \<Rightarrow> World \<Rightarrow> World" where
  "reconnect env w =
     (let w1 = logger (AttemptingReconnect (sessionName w)) w in
      case destroyClient env (wbot w1) w1 of
        (Inl error, w2) \<Rightarrow>
          io_emit (update (\<lambda>a. a\<lparr>status := ''DISCONNECTED'', qrcode := ''''\<rparr>)
            (logger (ReconnectionFailed error) w2))
      | (Inr u, w2) \<Rightarrow>
          (case initializeWithRetry env (wbot w2) 0 w2 of
             (Inl error, w3) \<Rightarrow>
               io_emit (update (\<lambda>a. a\<lparr>status := ''DISCONNECTED'', qrcode := ''''\<rparr>)
                 (logger (ReconnectionFailed error) w3))
           | (Inr u', w3) \<Rightarrow> w3))"

text \<open>Lines 111-115 of the \<^verbatim>\<open>qr\<close> handler and lines 180-184 of the \<^verbatim>\<open>ready\<close> handler are the
  same statements: look the account's id up in the registry and, when it is not there,
  write it on the client and push the client.\<close>

definition registerIfAbsent :: "World \<Rightarrow> World" where
  "registerIfAbsent w =
     (let sessionIndex =
            findIndex (\<lambda>s. session_id w s = Some (whatsapp_id (whatsapp w))) (sessions w)
      in if sessionIndex = - 1 then
           w\<lparr>session_id := (session_id w)(wbot w := Some (whatsapp_id (whatsapp w))),
             sessions := sessions w @ [wbot w]\<rparr>
         else w)"

text \<open>The handlers \<^verbatim>\<open>initWbot\<close> attaches (lines 106-190).\<close>

definition qr_handler :: "string \<Rightarrow> World \<Rightarrow> World" where
  "qr_handler qr w =
     io_emit (registerIfAbsent
       (update (\<lambda>a. a\<lparr>qrcode := qr, status := ''qrcode'', retries := 0\<rparr>)
          (call (QrCodeGenerate qr) (logger (SessionInfo (sessionName w)) w))))"

definition authenticated_handler :: "World \<Rightarrow> World" where
  "authenticated_handler w = logger (SessionAuthenticated (sessionName w)) w"

definition auth_failure_handler :: "string \<Rightarrow> World \<Rightarrow> World" where
  "auth_failure_handler msg w =
     (let w1 = logger (AuthenticationFailure (sessionName w) msg) w;
          w2 = (if retries (whatsapp w1) > 1
                then update (\<lambda>a. a\<lparr>session := Some '''', retries := 0\<rparr>) w1 else w1);
          retry = retries (whatsapp w2);
          w3 = update (\<lambda>a. a\<lparr>status := ''DISCONNECTED'', retries := retry + 1\<rparr>) w2
      in setTimeout Reconnect RECONNECT_INTERVAL (io_emit w3))"

definition disconnected_handler :: "string \<Rightarrow> World \<Rightarrow> World" where
  "disconnected_handler reason w =
     setTimeout Reconnect RECONNECT_INTERVAL
       (io_emit (update (\<lambda>a. a\<lparr>status := ''DISCONNECTED'', qrcode := ''''\<rparr>)
          (logger (SessionDisconnected (sessionName w) reason) w)))"

text \<open>The \<^verbatim>\<open>ready\<close> handler is the one handler a throw can leave: the event emitter drops the
  rejected promise of the \<^verbatim>\<open>async\<close> function, and \<^verbatim>\<open>resolve(wbot)\<close> is not reached.\<close>

definition ready_handler :: "Env \<Rightarrow> World \<Rightarrow> World" where
  "ready_handler env w =
     (let w1 = registerIfAbsent
                 (io_emit (update (\<lambda>a. a\<lparr>status := ''CONNECTED'', qrcode := '''', retries := 0\<rparr>)
                    (logger (SessionReady (sessionName w)) w)));
          w2 = call (SendPresenceAvailable (wbot w1)) w1
      in case syncUnreadMessages env (wbot w2) w2 of
           (Inl error, w3) \<Rightarrow> w3\<lparr>unhandled := unhandled w3 @ [error]\<rparr>
         | (Inr u, w3) \<Rightarrow> resolve (wbot w3) w3)"

text \<open>\<^verbatim>\<open>initWbot\<close> (lines 58-202). \<open>account\<close> is the argument \<^verbatim>\<open>whatsapp\<close>, \<open>r\<close> the reference of
  the object \<^verbatim>\<open>new Client\<close> makes, \<open>g\<close> the state before the call. A throw of the synchronous
  part rejects the promise, and so does the failure of the first connect sequence, which
  is run here to its end.\<close>

definition initWbot :: "Env \<Rightarrow> Whatsapp \<Rightarrow> Session \<Rightarrow> World \<Rightarrow> World" where
  "initWbot env account r g =
     (let w0 = g\<lparr>whatsapp := account, promise := Pending\<rparr> in
      case getIO env of
        Some err \<Rightarrow> reject err (logger (Logged err) w0)
      | None \<Rightarrow>
          (let w1 = w0\<lparr>sessionName := name account\<rparr> in
           case (case session account of
                   None \<Rightarrow> None
                 | Some cfg \<Rightarrow> if cfg = [] then None else JSON_parse env cfg) of
             Some err \<Rightarrow> reject err (logger (Logged err) w1)
           | None \<Rightarrow>
               (case new_Client env of
                  Some err \<Rightarrow> reject err (logger (Logged err) w1)
                | None \<Rightarrow>
                    (let w2 = w1\<lparr>wbot := r, session_id := (session_id w1)(r := None)\<rparr> in
                     case initializeWithRetry env r 0 w2 of
                       (Inl error, w3) \<Rightarrow> reject error (logger (InitializationFailed error) w3)
                     | (Inr u, w3) \<Rightarrow> w3))))"

subsection \<open>The event loop\<close>

text \<open>What happens to one closure: the engine emits one of its five events, or the oldest
  pending timer fires. All timers of the module have the same delay, so they fire in the
  order they were set.\<close>

datatype Event =
    Qr string
  | Authenticated
  | Auth_failure string
  | Disconnected string
  | Ready
  | Timeout

definition fire :: "Env \<Rightarrow> World \<Rightarrow> World" where
  "fire env w =
     (case timers w of
        [] \<Rightarrow> w
      | (cb, ms) # rest \<Rightarrow> (case cb of Reconnect \<Rightarrow> reconnect env (w\<lparr>timers := rest\<rparr>)))"

fun step :: "Env \<Rightarrow> Event \<Rightarrow> World \<Rightarrow> World" where
  "step env (Qr qr) w = qr_handler qr w"
| "step env Authenticated w = authenticated_handler w"
| "step env (Auth_failure msg) w = auth_failure_handler msg w"
| "step env (Disconnected reason) w = disconnected_handler reason w"
| "step env Ready w = ready_handler env w"
| "step env Timeout w = fire env w"

fun run :: "(Event \<times> Env) list \<Rightarrow> World \<Rightarrow> World" where
  "run [] w = w"
| "run ((ev, env) # rest) w = run rest (step env ev w)"

subsection \<open>Notions the properties use\<close>

text \<open>The registry entries whose \<^verbatim>\<open>id\<close> is \<open>i\<close>, in registry order.\<close>

definition registered :: "World \<Rightarrow> int \<Rightarrow> Session list" where
  "registered w i = filter (\<lambda>s. session_id w s = Some i) (sessions w)"

text \<open>The registry invariant: no identity has more than one entry.\<close>

definition one_per_identity :: "World \<Rightarrow> bool" where
  "one_per_identity w = (\<forall>i. length (registered w i) \<le> 1)"

text \<open>The closure's client carries no id but the account's: \<^verbatim>\<open>wbot.id\<close> is written only in
  lines 113 and 182, with \<^verbatim>\<open>whatsapp.id\<close>, just before the client is pushed. So a client that
  is in the registry has the id of its account.\<close>

definition closure_ok :: "World \<Rightarrow> bool" where
  "closure_ok w =
     (wbot w \<in> set (sessions w) \<longrightarrow> session_id w (wbot w) = Some (whatsapp_id (whatsapp w)))"

text \<open>The events whose handler registers the client.\<close>

fun registering :: "Event \<Rightarrow> bool" where
  "registering (Qr qr) = True"
| "registering Ready = True"
| "registering ev = False"

text \<open>Two states with the same registry, the same ids on the clients, the same closure
  client and the same account id.\<close>

definition registry_same :: "World \<Rightarrow> World \<Rightarrow> bool" where
  "registry_same w w' =
     (sessions w' = sessions w \<and> session_id w' = session_id w \<and> wbot w' = wbot w \<and>
      whatsapp_id (whatsapp w') = whatsapp_id (whatsapp w))"

subsection \<open>Concrete states and answers\<close>

text \<open>An account that has never been connected, the state in which nothing has happened
  yet, and some answers of the collaborators: everything works, \<^verbatim>\<open>destroy()\<close> throws,
  \<^verbatim>\<open>initialize()\<close> throws at every attempt, \<^verbatim>\<open>getChats()\<close> throws.\<close>

definition account0 :: Whatsapp where
  "account0 = \<lparr>whatsapp_id = 7, name = ''support'', session = None, status = ''OPENING'',
     qrcode = '''', retries = 0\<rparr>"

definition world0 :: World where
  "world0 = \<lparr>whatsapp = account0, wbot = 1, sessionName = ''support'', promise = Pending,
     sessions = [], session_id = (\<lambda>s. None), emitted = [], timers = [], calls = [],
     logs = [], unhandled = []\<rparr>"

definition env_ok :: Env where
  "env_ok = \<lparr>initialize = (\<lambda>k. None), destroy = (\<lambda>s. None), getChats = Inr [],
     handleMessage = (\<lambda>m. None), getIO = None, JSON_parse = (\<lambda>s. None), new_Client = None\<rparr>"

definition env_destroy_fails :: Env where
  "env_destroy_fails = env_ok\<lparr>destroy := (\<lambda>s. Some (Thrown ''Target closed''))\<rparr>"

definition env_down :: Env where
  "env_down = env_ok\<lparr>initialize := (\<lambda>k. Some (Thrown ''net::ERR_CONNECTION_REFUSED''))\<rparr>"

definition env_sync_fails :: Env where
  "env_sync_fails = env_ok\<lparr>getChats := Inl (Thrown ''Evaluation failed'')\<rparr>"

text \<open>A registry of three clients, registered for the accounts 7, 8 and 9.\<close>

definition world3 :: World where
  "world3 = world0\<lparr>sessions := [1, 2, 3],
     session_id := (\<lambda>s. None)(1 := Some 7, 2 := Some 8, 3 := Some 9)\<rparr>"

section \<open>Properties\<close>

subsection \<open>The registry as an array\<close>

lemma findIndex_none: "(findIndex P xs = - 1) = (\<forall>x\<in>set xs. \<not> P x)"
proof (induction xs)
  case Nil
  show ?case by simp
next
  case (Cons x xs)
  have "findIndex P xs \<ge> - 1 \<Longrightarrow> findIndex P xs + 1 \<noteq> - 1" by arith
  moreover have "findIndex P xs \<ge> - 1" by (induction xs) (auto simp: Let_def)
  ultimately show ?case using Cons by (auto simp: Let_def)
qed

text \<open>A hit of \<open>findIndex\<close> cuts the array at the first element that satisfies the predicate.\<close>

lemma findIndex_split:
  "findIndex P xs \<noteq> - 1 \<Longrightarrow>
   \<exists>ys x zs. xs = ys @ x # zs \<and> P x \<and> (\<forall>y\<in>set ys. \<not> P y) \<and> findIndex P xs = int (length ys)"
proof (induction xs)
  case Nil
  then show ?case by simp
next
  case (Cons a xs)
  show ?case
  proof (cases "P a")
    case True
    then have "a # xs = [] @ a # xs \<and> P a \<and> (\<forall>y\<in>set []. \<not> P y)
        \<and> findIndex P (a # xs) = int (length ([]::'a list))"
      by simp
    then show ?thesis by blast
  next
    case False
    with Cons.prems have ne: "findIndex P xs \<noteq> - 1" by (auto simp: Let_def split: if_splits)
    from Cons.IH [OF ne] obtain ys x zs where
      h: "xs = ys @ x # zs" "P x" "\<forall>y\<in>set ys. \<not> P y" "findIndex P xs = int (length ys)"
      by blast
    from h False ne have "a # xs = (a # ys) @ x # zs \<and> P x \<and> (\<forall>y\<in>set (a # ys). \<not> P y)
        \<and> findIndex P (a # xs) = int (length (a # ys))"
      by (simp add: Let_def)
    then show ?thesis by blast
  qed
qed

lemma splice_at: "splice (ys @ x # zs) (int (length ys)) 1 = ys @ zs"
  by (simp add: splice_def Let_def)

lemma findIndex_hd:
  assumes "findIndex P xs \<noteq> - 1"
  shows "xs ! nat (findIndex P xs) = hd (filter P xs)"
proof -
  from findIndex_split [OF assms] obtain ys x zs where
    h: "xs = ys @ x # zs" "P x" "\<forall>y\<in>set ys. \<not> P y" "findIndex P xs = int (length ys)"
    by blast
  from h(3) have "filter P ys = []" by (simp add: filter_empty_conv)
  with h show ?thesis by simp
qed

lemma filter_findIndex_splice:
  assumes "findIndex P xs \<noteq> - 1"
  shows "filter P (splice xs (findIndex P xs) 1) = tl (filter P xs)"
    and "(\<And>x. Q x \<Longrightarrow> \<not> P x) \<Longrightarrow> filter Q (splice xs (findIndex P xs) 1) = filter Q xs"
    and "length (splice xs (findIndex P xs) 1) + 1 = length xs"
proof -
  from findIndex_split [OF assms] obtain ys x zs where
    h: "xs = ys @ x # zs" "P x" "\<forall>y\<in>set ys. \<not> P y" "findIndex P xs = int (length ys)"
    by blast
  from h(3) have e: "filter P ys = []" by (simp add: filter_empty_conv)
  from h splice_at [of ys x zs] have s: "splice xs (findIndex P xs) 1 = ys @ zs" by simp
  from h e s show "filter P (splice xs (findIndex P xs) 1) = tl (filter P xs)" by simp
  from h s show "length (splice xs (findIndex P xs) 1) + 1 = length xs" by simp
  assume "\<And>x. Q x \<Longrightarrow> \<not> P x"
  with h(2) have "\<not> Q x" by blast
  with h s show "filter Q (splice xs (findIndex P xs) 1) = filter Q xs" by simp
qed

lemma registered_empty_iff:
  "(registered w i = []) = (findIndex (\<lambda>s. session_id w s = Some i) (sessions w) = - 1)"
  by (simp add: registered_def findIndex_none filter_empty_conv)

lemma destroyClient_eq:
  "destroyClient env s w =
     (Inr (), w\<lparr>calls := calls w @ [Destroy s],
                logs := logs w @ (case destroy env s of None \<Rightarrow> [] | Some e \<Rightarrow> [ErrorDestroying e])\<rparr>)"
  by (cases "destroy env s") (simp_all add: destroyClient_def wbot_destroy_def call_def logger_def)

subsection \<open>Lookup and removal\<close>

text \<open>C7. \<open>getWbot\<close> on an identity with no registry entry fails with the error
  \<^verbatim>\<open>ERR_WAPP_NOT_INITIALIZED\<close>; on an identity with an entry it returns the registered
  session of that identity: the first entry of the registry that carries the id.\<close>

theorem getWbot_lookup:
  "(registered w i = [] \<longrightarrow> getWbot i w = Inl (AppError ''ERR_WAPP_NOT_INITIALIZED'')) \<and>
   (registered w i \<noteq> [] \<longrightarrow>
      getWbot i w = Inr (hd (registered w i)) \<and>
      hd (registered w i) \<in> set (sessions w) \<and>
      session_id w (hd (registered w i)) = Some i)"
proof (intro conjI impI)
  assume "registered w i = []"
  then show "getWbot i w = Inl (AppError ''ERR_WAPP_NOT_INITIALIZED'')"
    by (simp add: getWbot_def registered_empty_iff)
next
  assume ne: "registered w i \<noteq> []"
  then have idx: "findIndex (\<lambda>s. session_id w s = Some i) (sessions w) \<noteq> - 1"
    by (simp add: registered_empty_iff)
  from findIndex_hd [OF idx] show "getWbot i w = Inr (hd (registered w i))"
    using idx by (simp add: getWbot_def registered_def)
  from ne have "hd (registered w i) \<in> set (registered w i)" by simp
  then show "hd (registered w i) \<in> set (sessions w)"
    and "session_id w (hd (registered w i)) = Some i"
    by (simp_all add: registered_def)
qed

theorem getWbot_lookup_witness:
  "registered world0 7 = [] \<and>
   getWbot 7 world0 = Inl (AppError ''ERR_WAPP_NOT_INITIALIZED'') \<and>
   registered (qr_handler ''XYZ'' world0) 7 \<noteq> [] \<and>
   getWbot 7 (qr_handler ''XYZ'' world0) = Inr 1"
proof -
  have a: "registered world0 7 = []"
    by (simp add: registered_def world0_def)
  have b: "registered (qr_handler ''XYZ'' world0) 7 = [1]"
    by (simp add: registered_def qr_handler_def registerIfAbsent_def io_emit_def update_def
        call_def logger_def world0_def account0_def)
  from a b getWbot_lookup [of world0 7] getWbot_lookup [of "qr_handler ''XYZ'' world0" 7]
  show ?thesis by simp
qed

text \<open>\<open>removeWbot\<close> never raises, whatever overlaps it: the \<^verbatim>\<open>catch\<close> of \<^verbatim>\<open>destroyClient\<close> keeps
  a failed \<^verbatim>\<open>destroy()\<close> inside, and nothing else in the body throws.\<close>

lemma removeWbot_never_raises: "fst (removeWbot env i during w) = Inr ()"
  by (simp add: removeWbot_def removeWbot_try_def destroyClient_eq Let_def)

text \<open>A call that nothing overlaps does what the claim C8 says: with no registry entry
  for the id the state is left as it is; with one, the first client registered under the
  id is destroyed and its entry, and no other, is taken out, and a \<^verbatim>\<open>destroy()\<close> that throws
  only adds a log line.\<close>

lemma removeWbot_undisturbed:
  "(registered w i = [] \<longrightarrow> snd (removeWbot env i during w) = w) \<and>
   (registered w i \<noteq> [] \<longrightarrow>
      registered (snd (removeWbot env i (\<lambda>w. w) w)) i = tl (registered w i) \<and>
      (\<forall>j. j \<noteq> i \<longrightarrow> registered (snd (removeWbot env i (\<lambda>w. w) w)) j = registered w j) \<and>
      length (sessions (snd (removeWbot env i (\<lambda>w. w) w))) + 1 = length (sessions w) \<and>
      calls (snd (removeWbot env i (\<lambda>w. w) w)) = calls w @ [Destroy (hd (registered w i))] \<and>
      logs (snd (removeWbot env i (\<lambda>w. w) w)) =
        logs w @ (case destroy env (hd (registered w i)) of
                    None \<Rightarrow> [] | Some e \<Rightarrow> [ErrorDestroying e]) \<and>
      unhandled (snd (removeWbot env i (\<lambda>w. w) w)) = unhandled w)"
proof (cases "registered w i = []")
  case True
  then have "findIndex (\<lambda>s. session_id w s = Some i) (sessions w) = - 1"
    by (simp add: registered_empty_iff)
  with True show ?thesis
    by (simp add: removeWbot_def removeWbot_try_def)
next
  case False
  let ?P = "\<lambda>s. session_id w s = Some i"
  from False have idx: "findIndex ?P (sessions w) \<noteq> - 1"
    by (simp add: registered_empty_iff)
  have r: "removeWbot env i (\<lambda>w. w) w =
      (Inr (), w\<lparr>calls := calls w @ [Destroy (hd (registered w i))],
                 logs := logs w @ (case destroy env (hd (registered w i)) of
                                     None \<Rightarrow> [] | Some e \<Rightarrow> [ErrorDestroying e]),
                 sessions := splice (sessions w) (findIndex ?P (sessions w)) 1\<rparr>)"
    using idx findIndex_hd [OF idx]
    by (simp add: removeWbot_def removeWbot_try_def destroyClient_eq registered_def)
  have other: "registered (snd (removeWbot env i (\<lambda>w. w) w)) j = registered w j" if "j \<noteq> i" for j
    using that filter_findIndex_splice(2) [OF idx, of "\<lambda>s. session_id w s = Some j"]
    by (simp add: r registered_def)
  from False r other filter_findIndex_splice(1,3) [OF idx] show ?thesis
    by (simp add: registered_def)
qed

text \<open>C8 fails on the code when two removals overlap. The clients 1, 2 and 3 are
  registered for the accounts 7, 8 and 9. \<open>removeWbot\<close> is called for 8: it reads index 1
  and waits for client 2 to be destroyed. Meanwhile \<open>removeWbot\<close> is called for 7 and
  runs to its end, which takes index 0 out. The first call then splices at index 1,
  where client 3 now is: no error is raised, but account 8 keeps its registry entry
  (a destroyed client) and account 9 has lost its own. One call after the other leaves
  client 3 alone, as the claim says.\<close>

theorem removeWbot_overlap_failing_input:
  "registered world3 7 = [1] \<and> registered world3 8 = [2] \<and> registered world3 9 = [3] \<and>
   fst (removeWbot env_ok 8 (\<lambda>w. snd (removeWbot env_ok 7 (\<lambda>w. w) w)) world3) = Inr () \<and>
   calls (snd (removeWbot env_ok 8 (\<lambda>w. snd (removeWbot env_ok 7 (\<lambda>w. w) w)) world3)) =
     [Destroy 2, Destroy 1] \<and>
   sessions (snd (removeWbot env_ok 8 (\<lambda>w. snd (removeWbot env_ok 7 (\<lambda>w. w) w)) world3)) = [2] \<and>
   registered (snd (removeWbot env_ok 8 (\<lambda>w. snd (removeWbot env_ok 7 (\<lambda>w. w) w)) world3)) 8
     = [2] \<and>
   registered (snd (removeWbot env_ok 8 (\<lambda>w. snd (removeWbot env_ok 7 (\<lambda>w. w) w)) world3)) 9
     = [] \<and>
   sessions (snd (removeWbot env_ok 8 (\<lambda>w. w) (snd (removeWbot env_ok 7 (\<lambda>w. w) world3)))) = [3]"
proof -
  have d: "destroy env_ok s = None" for s
    by (simp add: env_ok_def)
  have w: "sessions world3 = [1, 2, 3]" "calls world3 = []"
    "session_id world3 = (\<lambda>s. None)(1 := Some 7, 2 := Some 8, 3 := Some 9)"
    by (simp_all add: world3_def world0_def)
  have r: "registered world3 7 = [1]" "registered world3 8 = [2]" "registered world3 9 = [3]"
    by (simp_all add: registered_def w)
  have i7: "findIndex (\<lambda>s. session_id world3 s = Some 7) [1, 2, 3] = 0"
    and i8: "findIndex (\<lambda>s. session_id world3 s = Some 8) [1, 2, 3] = 1"
    by (simp_all add: w)
  have s0: "splice [a, b, c] 0 (Suc 0) = [b, c]" and s1: "splice [b, c] 1 (Suc 0) = [b]"
    and s0': "splice [b, c] 0 (Suc 0) = [c]" for a b c :: nat
    by (simp_all add: splice_def)
  let ?first = "snd (removeWbot env_ok 7 (\<lambda>w. w) world3)"
  have first: "?first = world3\<lparr>calls := [Destroy 1], sessions := [2, 3]\<rparr>"
    by (simp add: removeWbot_def removeWbot_try_def destroyClient_eq Let_def d w i7 s0)
  have inner: "snd (removeWbot env_ok 7 (\<lambda>w. w) (world3\<lparr>calls := [Destroy 2]\<rparr>)) =
      world3\<lparr>calls := [Destroy 2, Destroy 1], sessions := [2, 3]\<rparr>"
    by (simp add: removeWbot_def removeWbot_try_def destroyClient_eq Let_def d w i7 s0)
  have overlap: "removeWbot env_ok 8 (\<lambda>w. snd (removeWbot env_ok 7 (\<lambda>w. w) w)) world3 =
      (Inr (), world3\<lparr>calls := [Destroy 2, Destroy 1], sessions := [2]\<rparr>)"
    by (simp add: removeWbot_def [of env_ok 8] removeWbot_try_def [of env_ok 8]
        destroyClient_eq Let_def d w i8 inner s1)
  have i8': "findIndex (\<lambda>s. session_id ?first s = Some 8) (sessions ?first) = 0"
    by (simp add: first w)
  have seq: "sessions (snd (removeWbot env_ok 8 (\<lambda>w. w) ?first)) = [3]"
    by (simp add: removeWbot_def [of env_ok 8] removeWbot_try_def [of env_ok 8]
        destroyClient_eq Let_def d i8' s0') (simp add: first s0')
  show ?thesis
    by (simp add: r overlap seq registered_def w)
qed

subsection \<open>What the unread sync leaves alone\<close>

text \<open>The sync only makes calls: apart from the trace of calls the state is the one it
  started in.\<close>

lemma handleMessages_frame:
  "(snd (handleMessages env s msgs w))\<lparr>calls := c\<rparr> = w\<lparr>calls := c\<rparr>"
  by (induction msgs arbitrary: w) (simp_all add: call_def split: option.splits)

lemma syncChats_frame:
  "(snd (syncChats env s chats w))\<lparr>calls := c\<rparr> = w\<lparr>calls := c\<rparr>"
proof (induction chats arbitrary: w)
  case Nil
  show ?case by simp
next
  case (Cons chat chats)
  let ?w0 = "call (FetchMessages (chat_id chat) (unreadCount chat)) w"
  have w0: "?w0\<lparr>calls := c\<rparr> = w\<lparr>calls := c\<rparr>" by (simp add: call_def)
  show ?case
  proof (cases "unreadCount chat > 0")
    case False
    with Cons [of w] show ?thesis by simp
  next
    case True
    show ?thesis
    proof (cases "fetchMessages chat (unreadCount chat)")
      case (Inl e)
      with True w0 show ?thesis by simp
    next
      case (Inr msgs)
      obtain res w1 where hm: "handleMessages env s msgs ?w0 = (res, w1)" by fastforce
      from handleMessages_frame [where w = ?w0 and c = c and msgs = msgs and env = env and s = s] hm w0
      have w1: "w1\<lparr>calls := c\<rparr> = w\<lparr>calls := c\<rparr>" by simp
      then have w2: "(call (SendSeen (chat_id chat)) w1)\<lparr>calls := c\<rparr> = w\<lparr>calls := c\<rparr>"
        by (simp add: call_def)
      from Cons [of "call (SendSeen (chat_id chat)) w1"] w2
      have "(snd (syncChats env s chats (call (SendSeen (chat_id chat)) w1)))\<lparr>calls := c\<rparr>
              = w\<lparr>calls := c\<rparr>"
        by simp
      with True Inr hm w1 w2 show ?thesis
        by (simp split: sum.splits option.splits)
    qed
  qed
qed

lemma syncUnreadMessages_frame:
  "(snd (syncUnreadMessages env s w))\<lparr>calls := c\<rparr> = w\<lparr>calls := c\<rparr>"
proof (cases "getChats env")
  case (Inl e)
  then show ?thesis by (simp add: syncUnreadMessages_def call_def)
next
  case (Inr chats)
  from syncChats_frame [where w = "call (GetChats s) w" and c = c and chats = chats and env = env and s = s]
  have "(snd (syncChats env s chats (call (GetChats s) w)))\<lparr>calls := c\<rparr> = w\<lparr>calls := c\<rparr>"
    by (simp add: call_def)
  with Inr show ?thesis by (simp add: syncUnreadMessages_def)
qed

lemma same_but_calls:
  assumes "w'\<lparr>calls := []\<rparr> = w\<lparr>calls := []\<rparr>"
  shows "whatsapp w' = whatsapp w" and "wbot w' = wbot w" and "sessionName w' = sessionName w"
    and "promise w' = promise w" and "sessions w' = sessions w" and "session_id w' = session_id w"
    and "emitted w' = emitted w" and "timers w' = timers w" and "logs w' = logs w"
    and "unhandled w' = unhandled w"
proof -
  have "whatsapp (w'\<lparr>calls := []\<rparr>) = whatsapp w'" "wbot (w'\<lparr>calls := []\<rparr>) = wbot w'"
    "sessionName (w'\<lparr>calls := []\<rparr>) = sessionName w'" "promise (w'\<lparr>calls := []\<rparr>) = promise w'"
    "sessions (w'\<lparr>calls := []\<rparr>) = sessions w'" "session_id (w'\<lparr>calls := []\<rparr>) = session_id w'"
    "emitted (w'\<lparr>calls := []\<rparr>) = emitted w'" "timers (w'\<lparr>calls := []\<rparr>) = timers w'"
    "logs (w'\<lparr>calls := []\<rparr>) = logs w'" "unhandled (w'\<lparr>calls := []\<rparr>) = unhandled w'"
    by simp_all
  then show "whatsapp w' = whatsapp w" and "wbot w' = wbot w" and "sessionName w' = sessionName w"
    and "promise w' = promise w" and "sessions w' = sessions w" and "session_id w' = session_id w"
    and "emitted w' = emitted w" and "timers w' = timers w" and "logs w' = logs w"
    and "unhandled w' = unhandled w"
    unfolding assms by simp_all
qed

lemmas syncUnreadMessages_fields = same_but_calls [OF syncUnreadMessages_frame]

subsection \<open>The handlers, field by field\<close>

lemma registerIfAbsent_fields:
  "whatsapp (registerIfAbsent w) = whatsapp w" "wbot (registerIfAbsent w) = wbot w"
  "sessionName (registerIfAbsent w) = sessionName w" "promise (registerIfAbsent w) = promise w"
  "emitted (registerIfAbsent w) = emitted w" "timers (registerIfAbsent w) = timers w"
  "calls (registerIfAbsent w) = calls w" "logs (registerIfAbsent w) = logs w"
  "unhandled (registerIfAbsent w) = unhandled w"
  by (simp_all add: registerIfAbsent_def Let_def)

lemma registerIfAbsent_registry:
  "sessions (registerIfAbsent w) =
     (if registered w (whatsapp_id (whatsapp w)) = [] then sessions w @ [wbot w] else sessions w)"
  "session_id (registerIfAbsent w) =
     (if registered w (whatsapp_id (whatsapp w)) = []
      then (session_id w)(wbot w := Some (whatsapp_id (whatsapp w))) else session_id w)"
  by (simp_all add: registerIfAbsent_def Let_def registered_empty_iff)

text \<open>The \<^verbatim>\<open>ready\<close> handler with its state before the sync written out.\<close>

lemma ready_handler_alt:
  "ready_handler env w =
     (let w2 = call (SendPresenceAvailable (wbot w))
                 (registerIfAbsent
                   (io_emit (update (\<lambda>a. a\<lparr>status := ''CONNECTED'', qrcode := '''', retries := 0\<rparr>)
                      (logger (SessionReady (sessionName w)) w))));
          w3 = snd (syncUnreadMessages env (wbot w) w2)
      in case fst (syncUnreadMessages env (wbot w) w2) of
           Inl error \<Rightarrow> w3\<lparr>unhandled := unhandled w3 @ [error]\<rparr>
         | Inr u \<Rightarrow> resolve (wbot w) w3)"
proof -
  let ?w1 = "registerIfAbsent
      (io_emit (update (\<lambda>a. a\<lparr>status := ''CONNECTED'', qrcode := '''', retries := 0\<rparr>)
         (logger (SessionReady (sessionName w)) w)))"
  have wb: "wbot ?w1 = wbot w"
    by (simp add: registerIfAbsent_fields io_emit_def update_def logger_def)
  let ?w2 = "call (SendPresenceAvailable (wbot w)) ?w1"
  obtain res w3 where s: "syncUnreadMessages env (wbot w) ?w2 = (res, w3)" by fastforce
  with syncUnreadMessages_fields(2) [of env "wbot w" ?w2] wb have "wbot w3 = wbot w"
    by (simp add: call_def)
  moreover have "ready_handler env w =
      (case syncUnreadMessages env (wbot w) ?w2 of
         (Inl error, w3) \<Rightarrow> w3\<lparr>unhandled := unhandled w3 @ [error]\<rparr>
       | (Inr u, w3) \<Rightarrow> resolve (wbot w3) w3)"
    unfolding ready_handler_def Let_def wb by (simp add: call_def wb)
  ultimately show ?thesis using s
    by (cases res) (simp_all add: Let_def)
qed

lemma ready_handler_fields:
  "whatsapp (ready_handler env w) = (whatsapp w)\<lparr>status := ''CONNECTED'', qrcode := '''', retries := 0\<rparr>"
  "emitted (ready_handler env w) = emitted w @
     [(''whatsappSession'', \<lparr>action = ''update'',
        session_snapshot = (whatsapp w)\<lparr>status := ''CONNECTED'', qrcode := '''', retries := 0\<rparr>\<rparr>)]"
  "wbot (ready_handler env w) = wbot w" "sessionName (ready_handler env w) = sessionName w"
  "timers (ready_handler env w) = timers w"
  "sessions (ready_handler env w) = sessions (registerIfAbsent w)"
  "session_id (ready_handler env w) = session_id (registerIfAbsent w)"
  by (simp_all add: ready_handler_alt Let_def syncUnreadMessages_fields resolve_def call_def
      registerIfAbsent_fields registerIfAbsent_registry registered_def
      io_emit_def update_def logger_def split: sum.splits)

subsection \<open>The transitions\<close>

text \<open>C4. After the \<^verbatim>\<open>ready\<close> handler the account has status \<^verbatim>\<open>CONNECTED\<close>, an empty
  \<^verbatim>\<open>qrcode\<close> and \<^verbatim>\<open>retries\<close> 0, whatever the unread sync does afterwards, and the handler has
  emitted exactly one message on \<^verbatim>\<open>whatsappSession\<close>, of the shape
  \<^verbatim>\<open>{action: "update", session: account}\<close> with the account as it is after the update.\<close>

theorem ready_handler_connected:
  "status (whatsapp (ready_handler env w)) = ''CONNECTED'' \<and>
   qrcode (whatsapp (ready_handler env w)) = '''' \<and>
   retries (whatsapp (ready_handler env w)) = 0 \<and>
   emitted (ready_handler env w) =
     emitted w @ [(''whatsappSession'',
                   \<lparr>action = ''update'', session_snapshot = whatsapp (ready_handler env w)\<rparr>)]"
  by (simp add: ready_handler_fields)

theorem ready_handler_connected_witness:
  "status (whatsapp (ready_handler env_sync_fails world0)) = ''CONNECTED'' \<and>
   emitted (ready_handler env_sync_fails world0) =
     [(''whatsappSession'',
       \<lparr>action = ''update'',
        session_snapshot = account0\<lparr>status := ''CONNECTED'', qrcode := '''', retries := 0\<rparr>\<rparr>)]"
  using ready_handler_connected [of env_sync_fails world0]
  by (simp add: ready_handler_fields world0_def)

text \<open>C5, as stated, fails: it asks for the status \<^verbatim>\<open>"QRCODE"\<close> after a \<^verbatim>\<open>qr\<close> event, and the
  handler stores the lower-case string \<^verbatim>\<open>"qrcode"\<close> (line 109), here for the payload
  \<^verbatim>\<open>"XYZ"\<close> on a fresh account.\<close>

theorem qr_handler_status_counterexample:
  "status (whatsapp (qr_handler ''XYZ'' world0)) \<noteq> ''QRCODE''"
  by (simp add: qr_handler_def io_emit_def registerIfAbsent_fields update_def call_def logger_def)

text \<open>C5, amended. After the \<^verbatim>\<open>qr\<close> handler with payload \<open>p\<close> the account has status
  \<^verbatim>\<open>"qrcode"\<close>, \<^verbatim>\<open>qrcode\<close> \<open>p\<close> and \<^verbatim>\<open>retries\<close> 0; the registry has an entry for the account's id:
  when it had none, the closure's client is pushed with the id written on it, and when
  it had one, registry and ids are untouched. The handler does not settle the promise of
  \<^verbatim>\<open>initWbot\<close> (a pending one is still pending), and it emits one update message.\<close>

theorem qr_handler_registers:
  "status (whatsapp (qr_handler p w)) = ''qrcode'' \<and>
   qrcode (whatsapp (qr_handler p w)) = p \<and>
   retries (whatsapp (qr_handler p w)) = 0 \<and>
   whatsapp_id (whatsapp (qr_handler p w)) = whatsapp_id (whatsapp w) \<and>
   registered (qr_handler p w) (whatsapp_id (whatsapp w)) \<noteq> [] \<and>
   (registered w (whatsapp_id (whatsapp w)) = [] \<longrightarrow>
      sessions (qr_handler p w) = sessions w @ [wbot w] \<and>
      session_id (qr_handler p w) = (session_id w)(wbot w := Some (whatsapp_id (whatsapp w)))) \<and>
   (registered w (whatsapp_id (whatsapp w)) \<noteq> [] \<longrightarrow>
      sessions (qr_handler p w) = sessions w \<and> session_id (qr_handler p w) = session_id w) \<and>
   promise (qr_handler p w) = promise w \<and>
   emitted (qr_handler p w) =
     emitted w @ [(''whatsappSession'',
                   \<lparr>action = ''update'', session_snapshot = whatsapp (qr_handler p w)\<rparr>)]"
proof -
  let ?w1 = "update (\<lambda>a. a\<lparr>qrcode := p, status := ''qrcode'', retries := 0\<rparr>)
               (call (QrCodeGenerate p) (logger (SessionInfo (sessionName w)) w))"
  have reg: "registered ?w1 i = registered w i" for i
    by (simp add: registered_def update_def call_def logger_def)
  have id: "whatsapp_id (whatsapp ?w1) = whatsapp_id (whatsapp w)"
    by (simp add: update_def call_def logger_def)
  have s: "sessions (qr_handler p w) = sessions (registerIfAbsent ?w1)"
    and i: "session_id (qr_handler p w) = session_id (registerIfAbsent ?w1)"
    by (simp_all add: qr_handler_def io_emit_def)
  have rest: "whatsapp (qr_handler p w) = (whatsapp w)\<lparr>qrcode := p, status := ''qrcode'', retries := 0\<rparr>"
    "promise (qr_handler p w) = promise w"
    "emitted (qr_handler p w) = emitted w @ [(''whatsappSession'',
        \<lparr>action = ''update'',
         session_snapshot = (whatsapp w)\<lparr>qrcode := p, status := ''qrcode'', retries := 0\<rparr>\<rparr>)]"
    by (simp_all add: qr_handler_def io_emit_def registerIfAbsent_fields update_def call_def
        logger_def)
  have sw: "sessions ?w1 = sessions w" "session_id ?w1 = session_id w" "wbot ?w1 = wbot w"
    by (simp_all add: update_def call_def logger_def)
  have ne: "registered (qr_handler p w) (whatsapp_id (whatsapp w)) \<noteq> []"
    unfolding registered_def s i registerIfAbsent_registry id reg sw
    by (auto simp: registered_def filter_empty_conv)
  show ?thesis
    unfolding s i registerIfAbsent_registry id reg sw
    using ne rest by simp
qed

theorem qr_handler_registers_witness:
  "registered world0 7 = [] \<and>
   status (whatsapp (qr_handler ''XYZ'' world0)) = ''qrcode'' \<and>
   qrcode (whatsapp (qr_handler ''XYZ'' world0)) = ''XYZ'' \<and>
   sessions (qr_handler ''XYZ'' world0) = [1] \<and>
   promise (qr_handler ''XYZ'' world0) = Pending \<and>
   registered (qr_handler ''XYZ'' world0) 7 \<noteq> [] \<and>
   sessions (qr_handler ''ABC'' (qr_handler ''XYZ'' world0)) = [1]"
proof -
  have a: "registered world0 7 = []" "whatsapp_id (whatsapp world0) = 7"
    "sessions world0 = []" "wbot world0 = 1" "promise world0 = Pending"
    by (simp_all add: registered_def world0_def account0_def)
  from a qr_handler_registers [of "''XYZ''" world0]
    qr_handler_registers [of "''ABC''" "qr_handler ''XYZ'' world0"]
  show ?thesis by simp
qed

text \<open>C3. After the \<^verbatim>\<open>auth_failure\<close> handler the status is \<^verbatim>\<open>DISCONNECTED\<close>. When the
  account's \<^verbatim>\<open>retries\<close> was at most 1, \<^verbatim>\<open>qrcode\<close> (and the stored credentials) are unchanged and
  \<^verbatim>\<open>retries\<close> is one more than before. When it was greater than 1, the credentials are
  cleared and \<^verbatim>\<open>retries\<close> is reset to 0 first, so that it ends at 0 + 1 (the handler does
  not write \<^verbatim>\<open>qrcode\<close> in this case either).\<close>

theorem auth_failure_handler_retries:
  "status (whatsapp (auth_failure_handler msg w)) = ''DISCONNECTED'' \<and>
   (retries (whatsapp w) \<le> 1 \<longrightarrow>
      qrcode (whatsapp (auth_failure_handler msg w)) = qrcode (whatsapp w) \<and>
      session (whatsapp (auth_failure_handler msg w)) = session (whatsapp w) \<and>
      retries (whatsapp (auth_failure_handler msg w)) = retries (whatsapp w) + 1) \<and>
   (retries (whatsapp w) > 1 \<longrightarrow>
      session (whatsapp (auth_failure_handler msg w)) = Some '''' \<and>
      retries (whatsapp (auth_failure_handler msg w)) = 0 + 1 \<and>
      qrcode (whatsapp (auth_failure_handler msg w)) = qrcode (whatsapp w))"
  by (simp add: auth_failure_handler_def Let_def setTimeout_def io_emit_def update_def logger_def)

theorem auth_failure_handler_retries_witness:
  "retries (whatsapp world0) \<le> 1 \<and>
   status (whatsapp (auth_failure_handler ''401'' world0)) = ''DISCONNECTED'' \<and>
   qrcode (whatsapp (auth_failure_handler ''401'' world0)) = qrcode (whatsapp world0) \<and>
   retries (whatsapp (auth_failure_handler ''401'' world0)) = 1 \<and>
   retries (whatsapp (update (\<lambda>a. a\<lparr>retries := 2\<rparr>) world0)) > 1 \<and>
   session (whatsapp (auth_failure_handler ''401'' (update (\<lambda>a. a\<lparr>retries := 2\<rparr>) world0)))
     = Some '''' \<and>
   retries (whatsapp (auth_failure_handler ''401'' (update (\<lambda>a. a\<lparr>retries := 2\<rparr>) world0)))
     = 1"
proof -
  have a: "retries (whatsapp world0) = 0"
    "retries (whatsapp (update (\<lambda>a. a\<lparr>retries := 2\<rparr>) world0)) = 2"
    by (simp_all add: world0_def account0_def update_def)
  from a auth_failure_handler_retries [of "''401''" world0]
    auth_failure_handler_retries [of "''401''" "update (\<lambda>a. a\<lparr>retries := 2\<rparr>) world0"]
  show ?thesis by simp
qed

subsection \<open>The connect sequence and the reconnection cycle\<close>

text \<open>The connect sequence only makes calls and writes log lines.\<close>

lemma initializeWithRetry_frame:
  "(snd (initializeWithRetry env s k w))\<lparr>calls := c, logs := l\<rparr> = w\<lparr>calls := c, logs := l\<rparr>"
proof (induction env s k w rule: initializeWithRetry.induct)
  case (1 env s k w)
  show ?case
  proof (cases "initialize env k")
    case None
    then show ?thesis
      by (simp add: initializeWithRetry.simps [of env s k w] wbot_initialize_def call_def)
  next
    case (Some e)
    show ?thesis
    proof (cases "k < MAX_RETRIES")
      case False
      with Some show ?thesis
        by (simp add: initializeWithRetry.simps [of env s k w] wbot_initialize_def call_def)
    next
      case True
      from Some have "(Inl e, call (Initialize s) w) = wbot_initialize env s k w"
        by (simp add: wbot_initialize_def)
      from "1.IH" [OF this refl True] Some True show ?thesis
        by (simp add: initializeWithRetry.simps [of env s k w] wbot_initialize_def call_def
            logger_def)
    qed
  qed
qed

lemma same_but_calls_logs:
  assumes "w'\<lparr>calls := [], logs := []\<rparr> = w\<lparr>calls := [], logs := []\<rparr>"
  shows "whatsapp w' = whatsapp w" and "wbot w' = wbot w" and "sessionName w' = sessionName w"
    and "promise w' = promise w" and "sessions w' = sessions w" and "session_id w' = session_id w"
    and "emitted w' = emitted w" and "timers w' = timers w"
    and "unhandled w' = unhandled w"
proof -
  have "whatsapp (w'\<lparr>calls := [], logs := []\<rparr>) = whatsapp w'"
    "wbot (w'\<lparr>calls := [], logs := []\<rparr>) = wbot w'"
    "sessionName (w'\<lparr>calls := [], logs := []\<rparr>) = sessionName w'"
    "promise (w'\<lparr>calls := [], logs := []\<rparr>) = promise w'"
    "sessions (w'\<lparr>calls := [], logs := []\<rparr>) = sessions w'"
    "session_id (w'\<lparr>calls := [], logs := []\<rparr>) = session_id w'"
    "emitted (w'\<lparr>calls := [], logs := []\<rparr>) = emitted w'"
    "timers (w'\<lparr>calls := [], logs := []\<rparr>) = timers w'"
    "unhandled (w'\<lparr>calls := [], logs := []\<rparr>) = unhandled w'"
    by simp_all
  then show "whatsapp w' = whatsapp w" and "wbot w' = wbot w" and "sessionName w' = sessionName w"
    and "promise w' = promise w" and "sessions w' = sessions w" and "session_id w' = session_id w"
    and "emitted w' = emitted w" and "timers w' = timers w"
    and "unhandled w' = unhandled w"
    unfolding assms by simp_all
qed

lemmas initializeWithRetry_fields = same_but_calls_logs [OF initializeWithRetry_frame]

text \<open>When every attempt from \<open>k\<close> on fails, the sequence makes the attempts \<open>k\<close>, ...,
  \<open>MAX_RETRIES\<close>, sleeps between two of them, and throws the error of the last one.\<close>

lemma initializeWithRetry_all_fail:
  assumes "\<forall>j. k \<le> j \<and> j \<le> MAX_RETRIES \<longrightarrow> initialize env j \<noteq> None" and "k \<le> MAX_RETRIES"
  shows "initializeWithRetry env s k w =
     (Inl (the (initialize env MAX_RETRIES)),
      w\<lparr>calls := calls w @ Initialize s #
                   concat (replicate (MAX_RETRIES - k) [Sleep RECONNECT_INTERVAL, Initialize s]),
        logs := logs w @ map (\<lambda>j. AttemptFailed (j + 1) (RECONNECT_INTERVAL div 1000))
                           [k..<MAX_RETRIES]\<rparr>)"
  using assms
proof (induction env s k w rule: initializeWithRetry.induct)
  case (1 env s k w)
  from "1.prems" obtain e where e: "initialize env k = Some e" by auto
  then have wi: "wbot_initialize env s k w = (Inl e, call (Initialize s) w)"
    by (simp add: wbot_initialize_def)
  show ?case
  proof (cases "k < MAX_RETRIES")
    case False
    with "1.prems" have "k = MAX_RETRIES" by simp
    with e show ?thesis
      by (subst initializeWithRetry.simps) (simp add: wbot_initialize_def call_def)
  next
    case True
    then have k: "k + 1 \<le> MAX_RETRIES" by simp
    from "1.prems" have "\<forall>j. k + 1 \<le> j \<and> j \<le> MAX_RETRIES \<longrightarrow> initialize env j \<noteq> None"
      by simp
    note ih = "1.IH" [OF wi [symmetric] refl True this k]
    from True have r: "MAX_RETRIES - k = Suc (MAX_RETRIES - (k + 1))" by simp
    from True have u: "[k..<MAX_RETRIES] = k # [k + 1..<MAX_RETRIES]"
      by (simp add: upt_conv_Cons)
    show ?thesis
      unfolding initializeWithRetry.simps [of env s k w] wi r u
      using True ih by (simp add: call_def logger_def)
  qed
qed

lemma count_attempts:
  "count_list (Initialize s # concat (replicate n [Sleep i, Initialize s])) (Initialize s) = n + 1"
  "count_list (Initialize s # concat (replicate n [Sleep i, Initialize s])) (Sleep i) = n"
  by (induction n) simp_all

text \<open>Whatever the engine answers, the trace of a connect sequence is an attempt followed
  by at most \<open>MAX_RETRIES - k\<close> pairs of a sleep and an attempt, all on the same client.\<close>

lemma initializeWithRetry_calls:
  "\<exists>n\<le>MAX_RETRIES - k. calls (snd (initializeWithRetry env s k w)) =
     calls w @ Initialize s # concat (replicate n [Sleep RECONNECT_INTERVAL, Initialize s])"
proof (induction env s k w rule: initializeWithRetry.induct)
  case (1 env s k w)
  have zero: "calls w @ [Initialize s] =
      calls w @ Initialize s # concat (replicate 0 [Sleep RECONNECT_INTERVAL, Initialize s])"
    by simp
  show ?case
  proof (cases "initialize env k")
    case None
    then have "calls (snd (initializeWithRetry env s k w)) = calls w @ [Initialize s]"
      by (simp add: initializeWithRetry.simps [of env s k w] wbot_initialize_def call_def)
    with zero show ?thesis by (metis le0)
  next
    case (Some e)
    then have wi: "(Inl e, call (Initialize s) w) = wbot_initialize env s k w"
      by (simp add: wbot_initialize_def)
    show ?thesis
    proof (cases "k < MAX_RETRIES")
      case False
      with Some have "calls (snd (initializeWithRetry env s k w)) = calls w @ [Initialize s]"
        by (simp add: initializeWithRetry.simps [of env s k w] wbot_initialize_def call_def)
      with zero show ?thesis by (metis le0)
    next
      case True
      let ?w1 = "call (Sleep RECONNECT_INTERVAL)
          (logger (AttemptFailed (k + 1) (RECONNECT_INTERVAL div 1000)) (call (Initialize s) w))"
      from "1.IH" [OF wi refl True] obtain n where
        n: "n \<le> MAX_RETRIES - (k + 1)"
        "calls (snd (initializeWithRetry env s (k + 1) ?w1)) =
           calls ?w1 @ Initialize s # concat (replicate n [Sleep RECONNECT_INTERVAL, Initialize s])"
        by blast
      from True Some have "initializeWithRetry env s k w = initializeWithRetry env s (k + 1) ?w1"
        by (simp add: initializeWithRetry.simps [of env s k w] wbot_initialize_def)
      with n(2) have "calls (snd (initializeWithRetry env s k w)) =
          calls w @ Initialize s #
            concat (replicate (Suc n) [Sleep RECONNECT_INTERVAL, Initialize s])"
        by (simp add: call_def logger_def)
      moreover from n(1) True have "Suc n \<le> MAX_RETRIES - k" by simp
      ultimately show ?thesis by blast
    qed
  qed
qed

text \<open>\<^verbatim>\<open>reconnect\<close> with the state after \<^verbatim>\<open>destroyClient\<close> written out.\<close>

lemma reconnect_alt:
  "reconnect env w =
     (let w2 = w\<lparr>calls := calls w @ [Destroy (wbot w)],
                 logs := logs w @ AttemptingReconnect (sessionName w) #
                   (case destroy env (wbot w) of None \<Rightarrow> [] | Some e \<Rightarrow> [ErrorDestroying e])\<rparr>;
          r = initializeWithRetry env (wbot w) 0 w2
      in case fst r of
           Inl error \<Rightarrow>
             io_emit (update (\<lambda>a. a\<lparr>status := ''DISCONNECTED'', qrcode := ''''\<rparr>)
               (logger (ReconnectionFailed error) (snd r)))
         | Inr u \<Rightarrow> snd r)"
  by (simp add: reconnect_def destroyClient_eq logger_def Let_def split: prod.splits sum.splits)

lemma reconnect_fields:
  "wbot (reconnect env w) = wbot w" "sessionName (reconnect env w) = sessionName w"
  "promise (reconnect env w) = promise w" "sessions (reconnect env w) = sessions w"
  "session_id (reconnect env w) = session_id w" "timers (reconnect env w) = timers w"
  "unhandled (reconnect env w) = unhandled w"
  "whatsapp_id (whatsapp (reconnect env w)) = whatsapp_id (whatsapp w)"
  by (simp_all add: reconnect_alt Let_def initializeWithRetry_fields io_emit_def update_def
      logger_def split: sum.splits)

lemma reconnect_calls:
  "\<exists>n\<le>MAX_RETRIES. calls (reconnect env w) =
     calls w @ Destroy (wbot w) # Initialize (wbot w) #
       concat (replicate n [Sleep RECONNECT_INTERVAL, Initialize (wbot w)])"
proof -
  let ?w2 = "w\<lparr>calls := calls w @ [Destroy (wbot w)],
                logs := logs w @ AttemptingReconnect (sessionName w) #
                  (case destroy env (wbot w) of None \<Rightarrow> [] | Some e \<Rightarrow> [ErrorDestroying e])\<rparr>"
  from initializeWithRetry_calls [of 0 env "wbot w" ?w2] obtain n where
    n: "n \<le> MAX_RETRIES" "calls (snd (initializeWithRetry env (wbot w) 0 ?w2)) =
        calls ?w2 @ Initialize (wbot w) #
          concat (replicate n [Sleep RECONNECT_INTERVAL, Initialize (wbot w)])"
    by auto
  have "calls (reconnect env w) = calls (snd (initializeWithRetry env (wbot w) 0 ?w2))"
    by (simp add: reconnect_alt Let_def io_emit_def update_def logger_def split: sum.splits)
  with n show ?thesis by auto
qed

text \<open>A failed cycle: the account is marked and one message goes out.\<close>

lemma reconnect_failed:
  assumes "\<forall>k\<le>MAX_RETRIES. initialize env k \<noteq> None"
  shows "whatsapp (reconnect env w) = (whatsapp w)\<lparr>status := ''DISCONNECTED'', qrcode := ''''\<rparr>"
    and "emitted (reconnect env w) = emitted w @
      [(''whatsappSession'', \<lparr>action = ''update'',
         session_snapshot = (whatsapp w)\<lparr>status := ''DISCONNECTED'', qrcode := ''''\<rparr>\<rparr>)]"
    and "calls (reconnect env w) = calls w @ Destroy (wbot w) # Initialize (wbot w) #
       concat (replicate MAX_RETRIES [Sleep RECONNECT_INTERVAL, Initialize (wbot w)])"
proof -
  from assms have a: "\<forall>j. 0 \<le> j \<and> j \<le> MAX_RETRIES \<longrightarrow> initialize env j \<noteq> None" by simp
  note f = initializeWithRetry_all_fail [OF a le0]
  show "whatsapp (reconnect env w) = (whatsapp w)\<lparr>status := ''DISCONNECTED'', qrcode := ''''\<rparr>"
    and "emitted (reconnect env w) = emitted w @
      [(''whatsappSession'', \<lparr>action = ''update'',
         session_snapshot = (whatsapp w)\<lparr>status := ''DISCONNECTED'', qrcode := ''''\<rparr>\<rparr>)]"
    and "calls (reconnect env w) = calls w @ Destroy (wbot w) # Initialize (wbot w) #
       concat (replicate MAX_RETRIES [Sleep RECONNECT_INTERVAL, Initialize (wbot w)])"
    by (simp_all add: reconnect_alt Let_def f io_emit_def update_def logger_def)
qed

lemma env_down_initialize: "initialize env_down k = Some (Thrown ''net::ERR_CONNECTION_REFUSED'')"
  by (simp add: env_down_def env_ok_def)

text \<open>C2, as stated, fails: with the bound \<open>MAX_RETRIES\<close> = 5 and an engine whose
  \<^verbatim>\<open>initialize()\<close> always throws, the sequence makes 6 attempts, not 5. The test of line 29
  is \<^verbatim>\<open>retries < MAX_RETRIES\<close> on the number of retries already made, so the attempt made
  with \<^verbatim>\<open>retries\<close> = 5 is the sixth.\<close>

theorem initializeWithRetry_attempts_counterexample:
  "count_list (calls (snd (initializeWithRetry env_down 1 0 world0))) (Initialize 1) = 6 \<and>
   MAX_RETRIES = 5"
proof -
  have "\<forall>j. 0 \<le> j \<and> j \<le> MAX_RETRIES \<longrightarrow> initialize env_down j \<noteq> None"
    by (simp add: env_down_initialize)
  from initializeWithRetry_all_fail [OF this le0, of 1 world0]
  have "calls (snd (initializeWithRetry env_down 1 0 world0)) =
      Initialize 1 # concat (replicate MAX_RETRIES [Sleep RECONNECT_INTERVAL, Initialize 1])"
    by (simp add: world0_def)
  then have "count_list (calls (snd (initializeWithRetry env_down 1 0 world0))) (Initialize 1) =
      MAX_RETRIES + 1"
    by (simp only: count_attempts)
  then show ?thesis by (simp add: MAX_RETRIES_def)
qed

text \<open>C2, amended. When \<^verbatim>\<open>initialize()\<close> throws at every call, \<open>initializeWithRetry\<close> makes
  exactly \<open>MAX_RETRIES + 1\<close> attempts (the first one and \<open>MAX_RETRIES\<close> retries: 6), all on the
  client it was given, with exactly one sleep of \<open>RECONNECT_INTERVAL\<close> (5000 ms) between
  two consecutive attempts and none after the last, and then throws the error of the
  last attempt.\<close>

theorem initializeWithRetry_exhausts:
  assumes "\<forall>k. initialize env k \<noteq> None"
  shows "fst (initializeWithRetry env s 0 w) = Inl (the (initialize env MAX_RETRIES)) \<and>
    calls (snd (initializeWithRetry env s 0 w)) =
      calls w @ Initialize s #
        concat (replicate MAX_RETRIES [Sleep RECONNECT_INTERVAL, Initialize s]) \<and>
    count_list (drop (length (calls w)) (calls (snd (initializeWithRetry env s 0 w))))
      (Initialize s) = MAX_RETRIES + 1 \<and>
    count_list (drop (length (calls w)) (calls (snd (initializeWithRetry env s 0 w))))
      (Sleep RECONNECT_INTERVAL) = MAX_RETRIES \<and>
    MAX_RETRIES + 1 = 6 \<and> RECONNECT_INTERVAL = 5000"
proof -
  from assms have "\<forall>j. 0 \<le> j \<and> j \<le> MAX_RETRIES \<longrightarrow> initialize env j \<noteq> None" by simp
  note f = initializeWithRetry_all_fail [OF this le0, of s w]
  have c: "calls (snd (initializeWithRetry env s 0 w)) =
      calls w @ Initialize s #
        concat (replicate MAX_RETRIES [Sleep RECONNECT_INTERVAL, Initialize s])"
    by (simp add: f)
  have d: "drop (length (calls w)) (calls (snd (initializeWithRetry env s 0 w))) =
      Initialize s # concat (replicate MAX_RETRIES [Sleep RECONNECT_INTERVAL, Initialize s])"
    unfolding c by simp
  show ?thesis
    unfolding d count_attempts using c f
    by (simp add: MAX_RETRIES_def RECONNECT_INTERVAL_def)
qed

lemma replicate_5: "replicate 5 x = [x, x, x, x, x]"
  by (simp add: eval_nat_numeral)

theorem initializeWithRetry_exhausts_witness:
  "(\<forall>k. initialize env_down k \<noteq> None) \<and>
   fst (initializeWithRetry env_down 1 0 world0) = Inl (Thrown ''net::ERR_CONNECTION_REFUSED'') \<and>
   calls (snd (initializeWithRetry env_down 1 0 world0)) =
     [Initialize 1, Sleep 5000, Initialize 1, Sleep 5000, Initialize 1, Sleep 5000,
      Initialize 1, Sleep 5000, Initialize 1, Sleep 5000, Initialize 1]"
proof -
  have a: "\<forall>k. initialize env_down k \<noteq> None"
    by (simp add: env_down_initialize)
  have "calls world0 = []" by (simp add: world0_def)
  with a initializeWithRetry_exhausts [OF a, of 1 world0] show ?thesis
    by (simp add: MAX_RETRIES_def RECONNECT_INTERVAL_def replicate_5 env_down_initialize)
qed

text \<open>C6. When every attempt of a reconnection cycle fails (the first one and all
  \<open>MAX_RETRIES\<close> retries), \<open>reconnect\<close> leaves the account with status \<^verbatim>\<open>DISCONNECTED\<close> and an
  empty \<^verbatim>\<open>qrcode\<close>, emits exactly one update message, and sets no timer: the pending
  timers are those from before, and firing a timer only removes it. No error leaves the
  cycle: nothing is added to the unhandled rejections and the promise of \<^verbatim>\<open>initWbot\<close> is
  not touched.\<close>

theorem reconnect_exhausted:
  assumes "\<forall>k\<le>MAX_RETRIES. initialize env k \<noteq> None"
  shows "status (whatsapp (reconnect env w)) = ''DISCONNECTED'' \<and>
    qrcode (whatsapp (reconnect env w)) = '''' \<and>
    emitted (reconnect env w) =
      emitted w @ [(''whatsappSession'',
                    \<lparr>action = ''update'', session_snapshot = whatsapp (reconnect env w)\<rparr>)] \<and>
    timers (reconnect env w) = timers w \<and>
    timers (fire env w) = tl (timers w) \<and>
    unhandled (reconnect env w) = unhandled w \<and>
    promise (reconnect env w) = promise w \<and>
    count_list (drop (length (calls w)) (calls (reconnect env w))) (Initialize (wbot w)) =
      MAX_RETRIES + 1"
proof -
  have "timers (fire env w) = tl (timers w)"
    by (simp add: fire_def reconnect_fields split: list.splits Callback.splits)
  moreover have "drop (length (calls w)) (calls (reconnect env w)) =
      Destroy (wbot w) # Initialize (wbot w) #
        concat (replicate MAX_RETRIES [Sleep RECONNECT_INTERVAL, Initialize (wbot w)])"
    by (simp add: reconnect_failed(3) [OF assms])
  ultimately show ?thesis
    using count_attempts(1) [of "wbot w" MAX_RETRIES RECONNECT_INTERVAL]
    by (simp add: reconnect_failed [OF assms] reconnect_fields)
qed

theorem reconnect_exhausted_witness:
  "(\<forall>k. initialize env_down k \<noteq> None) \<and>
   status (whatsapp (reconnect env_down (disconnected_handler ''NAVIGATION'' world0))) =
     ''DISCONNECTED'' \<and>
   timers (disconnected_handler ''NAVIGATION'' world0) = [(Reconnect, 5000)] \<and>
   timers (fire env_down (disconnected_handler ''NAVIGATION'' world0)) = [] \<and>
   length (emitted (fire env_down (disconnected_handler ''NAVIGATION'' world0))) = 2 \<and>
   promise (fire env_down (disconnected_handler ''NAVIGATION'' world0)) = Pending"
proof -
  have a: "\<forall>k\<le>MAX_RETRIES. initialize env_down k \<noteq> None"
    by (simp add: env_down_initialize)
  have t: "timers (disconnected_handler ''NAVIGATION'' world0) = [(Reconnect, 5000)]"
    "emitted (disconnected_handler ''NAVIGATION'' world0) =
       [(''whatsappSession'', \<lparr>action = ''update'',
          session_snapshot = account0\<lparr>status := ''DISCONNECTED'', qrcode := ''''\<rparr>\<rparr>)]"
    "promise (disconnected_handler ''NAVIGATION'' world0) = Pending"
    by (simp_all add: disconnected_handler_def setTimeout_def io_emit_def update_def logger_def
        world0_def RECONNECT_INTERVAL_def)
  have f: "fire env_down (disconnected_handler ''NAVIGATION'' world0) =
      reconnect env_down ((disconnected_handler ''NAVIGATION'' world0)\<lparr>timers := []\<rparr>)"
    by (simp add: fire_def t)
  from a t env_down_initialize
    reconnect_exhausted [OF a, of "disconnected_handler ''NAVIGATION'' world0"]
    reconnect_exhausted [OF a, of "(disconnected_handler ''NAVIGATION'' world0)\<lparr>timers := []\<rparr>"]
  show ?thesis by (simp add: f)
qed

lemma initializeWithRetry_first_try:
  "initialize env k = None \<Longrightarrow> initializeWithRetry env s k w = (Inr (), call (Initialize s) w)"
  by (subst initializeWithRetry.simps) (simp add: wbot_initialize_def)

lemma reconnect_env_ok:
  "calls (reconnect env_ok w) = calls w @ [Destroy (wbot w), Initialize (wbot w)]"
  "wbot (reconnect env_ok w) = wbot w"
proof -
  have "initialize env_ok 0 = None" by (simp add: env_ok_def)
  from initializeWithRetry_first_try [OF this]
  show "calls (reconnect env_ok w) = calls w @ [Destroy (wbot w), Initialize (wbot w)]"
    by (simp add: reconnect_alt Let_def call_def)
  show "wbot (reconnect env_ok w) = wbot w" by (simp add: reconnect_fields)
qed

text \<open>C9, as stated, fails: the cycle does not construct a client. With an engine that
  works, \<open>reconnect\<close> on client 1 destroys client 1 and then calls \<^verbatim>\<open>initialize()\<close> on
  client 1, the object it has just destroyed (lines 90-91 both use the closure's
  \<^verbatim>\<open>wbot\<close>).\<close>

theorem reconnect_same_handle_counterexample:
  "calls (reconnect env_ok world0) = [Destroy 1, Initialize 1] \<and>
   wbot (reconnect env_ok world0) = 1 \<and> wbot world0 = 1"
  by (simp add: reconnect_env_ok world0_def)

text \<open>C9, amended. The \<^verbatim>\<open>disconnected\<close> and the \<^verbatim>\<open>auth_failure\<close> handler set the status to
  \<^verbatim>\<open>DISCONNECTED\<close> and add exactly one timer for \<open>reconnect\<close>, with the delay
  \<open>RECONNECT_INTERVAL\<close>. When that timer fires, \<open>reconnect\<close> runs: it first destroys the
  closure's client and then makes between 1 and \<open>MAX_RETRIES + 1\<close> attempts to initialise
  that same client, for the same account; no other client appears in its calls.\<close>

theorem disconnect_schedules_reconnect:
  "status (whatsapp (disconnected_handler reason w)) = ''DISCONNECTED'' \<and>
   timers (disconnected_handler reason w) = timers w @ [(Reconnect, RECONNECT_INTERVAL)] \<and>
   status (whatsapp (auth_failure_handler msg w)) = ''DISCONNECTED'' \<and>
   timers (auth_failure_handler msg w) = timers w @ [(Reconnect, RECONNECT_INTERVAL)] \<and>
   fire env (w\<lparr>timers := (Reconnect, RECONNECT_INTERVAL) # rest\<rparr>) =
     reconnect env (w\<lparr>timers := rest\<rparr>) \<and>
   (\<exists>n\<le>MAX_RETRIES. calls (reconnect env w) =
      calls w @ Destroy (wbot w) # Initialize (wbot w) #
        concat (replicate n [Sleep RECONNECT_INTERVAL, Initialize (wbot w)])) \<and>
   wbot (reconnect env w) = wbot w \<and>
   whatsapp_id (whatsapp (reconnect env w)) = whatsapp_id (whatsapp w)"
  using reconnect_calls [of env w]
  by (simp add: reconnect_fields disconnected_handler_def auth_failure_handler_def Let_def
      setTimeout_def io_emit_def update_def logger_def fire_def)

theorem disconnect_schedules_reconnect_witness:
  "timers (disconnected_handler ''NAVIGATION'' world0) = [(Reconnect, 5000)] \<and>
   timers (auth_failure_handler ''401'' world0) = [(Reconnect, 5000)] \<and>
   wbot (reconnect env_ok world0) = 1 \<and>
   calls (reconnect env_ok world0) = [Destroy 1, Initialize 1]"
proof -
  have w: "timers world0 = []" "wbot world0 = 1" "calls world0 = []"
    by (simp_all add: world0_def)
  from disconnect_schedules_reconnect [of "''NAVIGATION''" world0 "''401''" env_ok "[]"] w
    reconnect_env_ok(1) [of world0]
  show ?thesis
    by (simp add: RECONNECT_INTERVAL_def)
qed

subsection \<open>The registry invariant\<close>

lemma registry_same_registered: "registry_same w w' \<Longrightarrow> registered w' i = registered w i"
  by (simp add: registry_same_def registered_def)

lemma registry_same_invariants:
  "registry_same w w' \<Longrightarrow> one_per_identity w' = one_per_identity w"
  "registry_same w w' \<Longrightarrow> closure_ok w' = closure_ok w"
  by (simp_all add: registry_same_def one_per_identity_def closure_ok_def registered_def)

lemma registerIfAbsent_present:
  "registered w (whatsapp_id (whatsapp w)) \<noteq> [] \<Longrightarrow> registerIfAbsent w = w"
  by (simp add: registerIfAbsent_def Let_def registered_empty_iff)

lemma registerIfAbsent_absent:
  assumes "registered w (whatsapp_id (whatsapp w)) = []" and "closure_ok w"
  shows "registered (registerIfAbsent w) (whatsapp_id (whatsapp w)) = [wbot w]"
    and "j \<noteq> whatsapp_id (whatsapp w) \<Longrightarrow> registered (registerIfAbsent w) j = registered w j"
    and "closure_ok (registerIfAbsent w)"
proof -
  let ?i = "whatsapp_id (whatsapp w)"
  have notin: "wbot w \<notin> set (sessions w)"
  proof
    assume in_reg: "wbot w \<in> set (sessions w)"
    with assms(2) have "session_id w (wbot w) = Some ?i" by (simp add: closure_ok_def)
    with in_reg have "wbot w \<in> set (registered w ?i)" by (simp add: registered_def)
    with assms(1) show False by simp
  qed
  have old: "filter (\<lambda>s. ((session_id w)(wbot w := Some ?i)) s = Some j) (sessions w) =
      registered w j" for j
    unfolding registered_def using notin by (intro filter_cong) auto
  from assms(1) old [of ?i]
  show "registered (registerIfAbsent w) ?i = [wbot w]"
    by (simp add: registered_def registerIfAbsent_registry registerIfAbsent_fields)
  from assms(1) show "closure_ok (registerIfAbsent w)"
    by (simp add: closure_ok_def registerIfAbsent_registry registerIfAbsent_fields)
  assume "j \<noteq> ?i"
  with assms(1) old [of j] show "registered (registerIfAbsent w) j = registered w j"
    by (simp add: registered_def registerIfAbsent_registry registerIfAbsent_fields)
qed

text \<open>Register-if-absent keeps both invariants, leaves the other identities alone, leaves
  an identity that has an entry alone, and ends with an entry for the account.\<close>

lemma registerIfAbsent_invariants:
  assumes "one_per_identity w" and "closure_ok w"
  shows "one_per_identity (registerIfAbsent w)" and "closure_ok (registerIfAbsent w)"
    and "length (registered (registerIfAbsent w) (whatsapp_id (whatsapp w))) = 1"
    and "j \<noteq> whatsapp_id (whatsapp w) \<Longrightarrow> registered (registerIfAbsent w) j = registered w j"
proof -
  let ?i = "whatsapp_id (whatsapp w)"
  show "closure_ok (registerIfAbsent w)"
    using assms(2) registerIfAbsent_absent(3) [of w] registerIfAbsent_present [of w]
    by (cases "registered w ?i = []") simp_all
  show len: "length (registered (registerIfAbsent w) ?i) = 1"
  proof (cases "registered w ?i = []")
    case True
    from registerIfAbsent_absent(1) [OF True assms(2)] show ?thesis by simp
  next
    case False
    then have "length (registered w ?i) \<noteq> 0" by simp
    moreover from assms(1) have "length (registered w ?i) \<le> 1" by (simp add: one_per_identity_def)
    ultimately have "length (registered w ?i) = 1" by linarith
    with False show ?thesis by (simp add: registerIfAbsent_present)
  qed
  show other: "registered (registerIfAbsent w) j = registered w j" if "j \<noteq> ?i" for j
    using that registerIfAbsent_absent(2) [of w j] registerIfAbsent_present [of w] assms(2)
    by (cases "registered w ?i = []") simp_all
  show "one_per_identity (registerIfAbsent w)"
    unfolding one_per_identity_def
  proof
    fix j
    show "length (registered (registerIfAbsent w) j) \<le> 1"
    proof (cases "j = ?i")
      case True
      with len show ?thesis by simp
    next
      case False
      with other [of j] assms(1) show ?thesis by (simp add: one_per_identity_def)
    qed
  qed
qed

text \<open>Every step of the event loop acts on the registry as the identity or as
  register-if-absent.\<close>

lemma step_registry:
  "registry_same (if registering ev then registerIfAbsent w else w) (step env ev w)"
proof (cases ev)
  case (Qr p)
  let ?w1 = "update (\<lambda>a. a\<lparr>qrcode := p, status := ''qrcode'', retries := 0\<rparr>)
               (call (QrCodeGenerate p) (logger (SessionInfo (sessionName w)) w))"
  have "registerIfAbsent ?w1 =
      (registerIfAbsent w)\<lparr>whatsapp := (whatsapp w)\<lparr>qrcode := p, status := ''qrcode'', retries := 0\<rparr>,
        calls := calls w @ [QrCodeGenerate p], logs := logs w @ [SessionInfo (sessionName w)]\<rparr>"
    by (simp add: registerIfAbsent_def Let_def update_def call_def logger_def)
  with Qr show ?thesis
    by (simp add: registry_same_def qr_handler_def io_emit_def registerIfAbsent_fields)
next
  case Authenticated
  then show ?thesis
    by (simp add: registry_same_def authenticated_handler_def logger_def)
next
  case (Auth_failure msg)
  then show ?thesis
    by (simp add: registry_same_def auth_failure_handler_def Let_def setTimeout_def io_emit_def
        update_def logger_def)
next
  case (Disconnected reason)
  then show ?thesis
    by (simp add: registry_same_def disconnected_handler_def setTimeout_def io_emit_def
        update_def logger_def)
next
  case Ready
  then show ?thesis
    by (simp add: registry_same_def ready_handler_fields registerIfAbsent_fields)
next
  case Timeout
  then show ?thesis
    by (simp add: registry_same_def fire_def reconnect_fields split: list.splits Callback.splits)
qed

lemma step_invariants:
  assumes "one_per_identity w" and "closure_ok w"
  shows "one_per_identity (step env ev w)" and "closure_ok (step env ev w)"
    and "whatsapp_id (whatsapp (step env ev w)) = whatsapp_id (whatsapp w)"
    and "wbot (step env ev w) = wbot w"
    and "j \<noteq> whatsapp_id (whatsapp w) \<Longrightarrow> registered (step env ev w) j = registered w j"
    and "registered w (whatsapp_id (whatsapp w)) \<noteq> [] \<Longrightarrow>
      registered (step env ev w) (whatsapp_id (whatsapp w)) = registered w (whatsapp_id (whatsapp w))"
    and "registering ev \<Longrightarrow> length (registered (step env ev w) (whatsapp_id (whatsapp w))) = 1"
    and "registering ev \<Longrightarrow> registered w (whatsapp_id (whatsapp w)) = [] \<Longrightarrow>
      registered (step env ev w) (whatsapp_id (whatsapp w)) = [wbot w]"
    and "\<not> registering ev \<Longrightarrow> registered (step env ev w) i = registered w i"
proof -
  let ?w = "if registering ev then registerIfAbsent w else w"
  note s = step_registry [of ev w env]
  note r = registry_same_registered [OF s]
  note inv = registerIfAbsent_invariants [OF assms]
  from assms inv(1) show "one_per_identity (step env ev w)"
    by (simp add: registry_same_invariants(1) [OF s])
  from assms inv(2) show "closure_ok (step env ev w)"
    by (simp add: registry_same_invariants(2) [OF s])
  from s show "whatsapp_id (whatsapp (step env ev w)) = whatsapp_id (whatsapp w)"
    and "wbot (step env ev w) = wbot w"
    by (simp_all add: registry_same_def registerIfAbsent_fields)
  show "j \<noteq> whatsapp_id (whatsapp w) \<Longrightarrow> registered (step env ev w) j = registered w j"
    using inv(4) [of j] by (simp add: r)
  show "registered w (whatsapp_id (whatsapp w)) \<noteq> [] \<Longrightarrow>
      registered (step env ev w) (whatsapp_id (whatsapp w)) = registered w (whatsapp_id (whatsapp w))"
    by (simp add: r registerIfAbsent_present)
  show "registering ev \<Longrightarrow> length (registered (step env ev w) (whatsapp_id (whatsapp w))) = 1"
    using inv(3) by (simp add: r)
  show "registering ev \<Longrightarrow> registered w (whatsapp_id (whatsapp w)) = [] \<Longrightarrow>
      registered (step env ev w) (whatsapp_id (whatsapp w)) = [wbot w]"
    using registerIfAbsent_absent(1) [OF _ assms(2)] by (simp add: r)
  show "\<not> registering ev \<Longrightarrow> registered (step env ev w) i = registered w i"
    by (simp add: r)
qed

lemma run_invariants:
  assumes "one_per_identity w" and "closure_ok w"
  shows "one_per_identity (run evs w) \<and> closure_ok (run evs w) \<and>
    whatsapp_id (whatsapp (run evs w)) = whatsapp_id (whatsapp w) \<and>
    wbot (run evs w) = wbot w \<and>
    (\<forall>j. j \<noteq> whatsapp_id (whatsapp w) \<longrightarrow> registered (run evs w) j = registered w j) \<and>
    (registered w (whatsapp_id (whatsapp w)) \<noteq> [] \<longrightarrow>
       registered (run evs w) (whatsapp_id (whatsapp w)) = registered w (whatsapp_id (whatsapp w))) \<and>
    (if list_ex (\<lambda>(ev, env). registering ev) evs
     then length (registered (run evs w) (whatsapp_id (whatsapp w))) = 1 \<and>
          (registered w (whatsapp_id (whatsapp w)) = [] \<longrightarrow>
             registered (run evs w) (whatsapp_id (whatsapp w)) = [wbot w])
     else registered (run evs w) (whatsapp_id (whatsapp w)) =
            registered w (whatsapp_id (whatsapp w)))"
  using assms
proof (induction evs arbitrary: w)
  case Nil
  then show ?case by simp
next
  case (Cons a evs)
  obtain ev env where a: "a = (ev, env)" by (cases a)
  let ?w1 = "step env ev w"
  let ?i = "whatsapp_id (whatsapp w)"
  note st = step_invariants [OF Cons.prems, where env = env and ev = ev]
  note ih = Cons.IH [OF st(1) st(2), unfolded st(3) st(4)]
  show ?case
  proof (cases "registering ev")
    case True
    from st(7) [OF True] have ne: "registered ?w1 ?i \<noteq> []" by auto
    with ih have same: "registered (run evs ?w1) ?i = registered ?w1 ?i" by simp
    from ih st(5) st(6) st(7) [OF True] st(8) [OF True] same True show ?thesis
      by (simp add: a)
  next
    case False
    from ih st(5) st(9) [OF False] False show ?thesis
      by (simp add: a)
  qed
qed

subsection \<open>The promise of \<^verbatim>\<open>initWbot\<close>\<close>

text \<open>Whether the sync throws, and what, is decided by the answers of the engine and of
  the listener alone.\<close>

lemma handleMessages_result:
  "fst (handleMessages env s msgs w) = fst (handleMessages env s' msgs w')"
  by (induction msgs arbitrary: w w') (simp_all split: option.splits)

lemma syncChats_result:
  "fst (syncChats env s chats w) = fst (syncChats env s' chats w')"
proof (induction chats arbitrary: w w')
  case Nil
  show ?case by simp
next
  case (Cons chat chats)
  let ?f = "FetchMessages (chat_id chat) (unreadCount chat)"
  show ?case
  proof (cases "unreadCount chat > 0")
    case False
    with Cons [of w w'] show ?thesis by simp
  next
    case True
    show ?thesis
    proof (cases "fetchMessages chat (unreadCount chat)")
      case (Inl e)
      with True show ?thesis by simp
    next
      case (Inr msgs)
      obtain r1 w1 where h1: "handleMessages env s msgs (call ?f w) = (r1, w1)" by fastforce
      obtain r2 w2 where h2: "handleMessages env s' msgs (call ?f w') = (r2, w2)" by fastforce
      from handleMessages_result [of env s msgs "call ?f w" s' "call ?f w'"] h1 h2
      have r: "r2 = r1" by simp
      from Cons [of "call (SendSeen (chat_id chat)) w1" "call (SendSeen (chat_id chat)) w2"]
        True Inr h1 h2 r
      show ?thesis by (simp split: sum.splits option.splits)
    qed
  qed
qed

lemma syncUnreadMessages_result:
  "fst (syncUnreadMessages env s w) = fst (syncUnreadMessages env s' w')"
  using syncChats_result [of env s _ "call (GetChats s) w" s' "call (GetChats s') w'"]
  by (simp add: syncUnreadMessages_def split: sum.splits)

text \<open>The promise and the unhandled rejections after the \<^verbatim>\<open>ready\<close> handler.\<close>

lemma ready_handler_settles:
  "promise (ready_handler env w) =
     (case fst (syncUnreadMessages env (wbot w) w) of
        Inl e \<Rightarrow> promise w
      | Inr u \<Rightarrow> if promise w = Pending then Resolved (wbot w) else promise w)"
  "unhandled (ready_handler env w) =
     (case fst (syncUnreadMessages env (wbot w) w) of
        Inl e \<Rightarrow> unhandled w @ [e]
      | Inr u \<Rightarrow> unhandled w)"
proof -
  let ?w2 = "call (SendPresenceAvailable (wbot w))
      (registerIfAbsent
        (io_emit (update (\<lambda>a. a\<lparr>status := ''CONNECTED'', qrcode := '''', retries := 0\<rparr>)
           (logger (SessionReady (sessionName w)) w))))"
  have r: "fst (syncUnreadMessages env (wbot w) ?w2) = fst (syncUnreadMessages env (wbot w) w)"
    by (rule syncUnreadMessages_result)
  have p: "promise ?w2 = promise w" "unhandled ?w2 = unhandled w"
    by (simp_all add: call_def registerIfAbsent_fields io_emit_def update_def logger_def)
  show "promise (ready_handler env w) =
     (case fst (syncUnreadMessages env (wbot w) w) of
        Inl e \<Rightarrow> promise w
      | Inr u \<Rightarrow> if promise w = Pending then Resolved (wbot w) else promise w)"
    by (simp add: ready_handler_alt Let_def r p syncUnreadMessages_fields resolve_def
        split: sum.splits)
  show "unhandled (ready_handler env w) =
     (case fst (syncUnreadMessages env (wbot w) w) of
        Inl e \<Rightarrow> unhandled w @ [e]
      | Inr u \<Rightarrow> unhandled w)"
    by (simp add: ready_handler_alt Let_def r p syncUnreadMessages_fields resolve_def
        split: sum.splits)
qed

text \<open>No other step settles the promise, and no step changes the closure's client.\<close>

lemma step_promise: "ev \<noteq> Ready \<Longrightarrow> promise (step env ev w) = promise w"
  by (cases ev)
    (simp_all add: qr_handler_def authenticated_handler_def auth_failure_handler_def
      disconnected_handler_def fire_def reconnect_fields Let_def setTimeout_def io_emit_def
      registerIfAbsent_fields update_def call_def logger_def
      split: list.splits Callback.splits)

lemma run_promise:
  "list_all (\<lambda>(ev, env). ev \<noteq> Ready) evs \<Longrightarrow> promise (run evs w) = promise w"
  by (induction evs arbitrary: w) (auto simp: step_promise)

lemma run_wbot: "wbot (run evs w) = wbot w"
proof (induction evs arbitrary: w)
  case Nil
  show ?case by simp
next
  case (Cons a evs)
  obtain ev env where a: "a = (ev, env)" by (cases a)
  from step_registry [of ev w env] have "wbot (step env ev w) = wbot w"
    by (simp add: registry_same_def registerIfAbsent_fields split: if_splits)
  with Cons [of "step env ev w"] a show ?case by simp
qed

lemma run_append: "run (xs @ ys) w = run ys (run xs w)"
  by (induction xs arbitrary: w) auto

lemma initWbot_env_ok: "initWbot env_ok account0 1 world0 = world0\<lparr>calls := [Initialize 1]\<rparr>"
proof -
  have e: "initialize env_ok 0 = None" "getIO env_ok = None" "new_Client env_ok = None"
    by (simp_all add: env_ok_def)
  note f = initializeWithRetry_first_try [OF e(1)]
  have a: "session account0 = None" "name account0 = ''support''"
    by (simp_all add: account0_def)
  have "(\<lambda>s. None)(Suc 0 := None) = (\<lambda>s. None)" by auto
  then show ?thesis
    by (simp add: initWbot_def Let_def f e a call_def world0_def)
qed

lemma registerIfAbsent_nonempty:
  "registered (registerIfAbsent w) (whatsapp_id (whatsapp w)) \<noteq> []"
  by (auto simp: registered_def registerIfAbsent_registry registerIfAbsent_fields filter_empty_conv)

text \<open>A splice takes elements out and puts none in: at whatever index it is made, no
  identity gains an entry.\<close>

lemma filter_splice_le: "length (filter P (splice xs start n)) \<le> length (filter P xs)"
proof -
  have part: "length (filter P (take a ys @ drop (a + n) ys)) \<le> length (filter P ys)"
    for a and ys :: "'a list"
  proof -
    have "drop (a + n) ys = drop n (drop a ys)" by (simp add: add.commute)
    moreover have "length (filter P (drop n zs)) \<le> length (filter P zs)" for zs :: "'a list"
    proof -
      have "filter P zs = filter P (take n zs) @ filter P (drop n zs)"
        by (metis append_take_drop_id filter_append)
      then show ?thesis by simp
    qed
    moreover have "filter P ys = filter P (take a ys) @ filter P (drop a ys)"
      by (metis append_take_drop_id filter_append)
    ultimately show ?thesis
      by (metis add_le_cancel_left filter_append length_append)
  qed
  show ?thesis
    unfolding splice_def Let_def by (rule part)
qed

text \<open>So \<open>removeWbot\<close> keeps the registry invariant, also when what runs during its
  \<^verbatim>\<open>await\<close> (and keeps the invariant) has changed the registry under it.\<close>

lemma removeWbot_one_per_identity:
  assumes "one_per_identity w"
    and "\<And>w'. one_per_identity w' \<Longrightarrow> one_per_identity (during w')"
  shows "one_per_identity (snd (removeWbot env i during w))"
proof (cases "findIndex (\<lambda>s. session_id w s = Some i) (sessions w) = - 1")
  case True
  with assms(1) show ?thesis
    by (simp add: removeWbot_def removeWbot_try_def)
next
  case False
  let ?idx = "findIndex (\<lambda>s. session_id w s = Some i) (sessions w)"
  let ?w1 = "w\<lparr>calls := calls w @ [Destroy (sessions w ! nat ?idx)],
                logs := logs w @ (case destroy env (sessions w ! nat ?idx) of
                                    None \<Rightarrow> [] | Some e \<Rightarrow> [ErrorDestroying e])\<rparr>"
  from assms(1) have "one_per_identity ?w1"
    by (simp add: one_per_identity_def registered_def)
  then have d: "one_per_identity (during ?w1)" by (rule assms(2))
  from False have r: "snd (removeWbot env i during w) =
      (during ?w1)\<lparr>sessions := splice (sessions (during ?w1)) ?idx 1\<rparr>"
    by (simp add: removeWbot_def removeWbot_try_def destroyClient_eq Let_def)
  show ?thesis
    unfolding one_per_identity_def
  proof
    fix j
    have "length (registered (snd (removeWbot env i during w)) j) \<le>
        length (registered (during ?w1) j)"
      unfolding r by (simp add: registered_def filter_splice_le)
    also from d have "\<dots> \<le> 1" by (simp add: one_per_identity_def)
    finally show "length (registered (snd (removeWbot env i during w)) j) \<le> 1" .
  qed
qed

text \<open>C1. Take a state in which no identity has more than one registry entry and in
  which the closure's client, if registered, carries the id of its account (as it does
  after \<^verbatim>\<open>initWbot\<close> and ever after). Then, whatever events the closure handles, in any
  number and order and with any answers of the collaborators, no identity has more than
  one entry; the entries of the other identities are the same as before; an entry the
  account's identity already had is still the entry, neither doubled nor replaced; and
  once a \<^verbatim>\<open>qr\<close> or \<^verbatim>\<open>ready\<close> event is among them the account's identity has exactly one entry,
  which is the closure's client when there was none before. A removal keeps the bound
  as well, whatever runs while it waits for the destroy, as long as that keeps the bound
  too.\<close>

theorem registry_one_session_per_identity:
  assumes "one_per_identity w" and "closure_ok w"
  shows "one_per_identity (run evs w) \<and>
    (\<forall>j. j \<noteq> whatsapp_id (whatsapp w) \<longrightarrow> registered (run evs w) j = registered w j) \<and>
    (registered w (whatsapp_id (whatsapp w)) \<noteq> [] \<longrightarrow>
       registered (run evs w) (whatsapp_id (whatsapp w)) = registered w (whatsapp_id (whatsapp w))) \<and>
    (list_ex (\<lambda>(ev, env). registering ev) evs \<longrightarrow>
       length (registered (run evs w) (whatsapp_id (whatsapp w))) = 1 \<and>
       (registered w (whatsapp_id (whatsapp w)) = [] \<longrightarrow>
          registered (run evs w) (whatsapp_id (whatsapp w)) = [wbot w])) \<and>
    ((\<forall>w'. one_per_identity w' \<longrightarrow> one_per_identity (during w')) \<longrightarrow>
       one_per_identity (snd (removeWbot env i during w)))"
proof -
  have "one_per_identity (snd (removeWbot env i during w))"
    if "\<forall>w'. one_per_identity w' \<longrightarrow> one_per_identity (during w')"
    using assms(1) that by (intro removeWbot_one_per_identity) auto
  with run_invariants [OF assms, of evs] show ?thesis
    by (simp split: if_splits)
qed

theorem registry_one_session_per_identity_witness:
  "one_per_identity (initWbot env_ok account0 1 world0) \<and>
   closure_ok (initWbot env_ok account0 1 world0) \<and>
   registered (initWbot env_ok account0 1 world0) 7 = [] \<and>
   registered
     (run [(Qr ''XYZ'', env_ok), (Ready, env_ok), (Qr ''ABC'', env_ok), (Ready, env_sync_fails)]
        (initWbot env_ok account0 1 world0)) 7 = [1] \<and>
   one_per_identity
     (run [(Qr ''XYZ'', env_ok), (Ready, env_ok), (Qr ''ABC'', env_ok), (Ready, env_sync_fails)]
        (initWbot env_ok account0 1 world0)) \<and>
   one_per_identity
     (snd (removeWbot env_ok 7 (\<lambda>w. w) (qr_handler ''XYZ'' (initWbot env_ok account0 1 world0))))"
proof -
  let ?w = "initWbot env_ok account0 1 world0"
  have w: "sessions ?w = []" "whatsapp_id (whatsapp ?w) = 7" "wbot ?w = 1"
    unfolding initWbot_env_ok by (simp_all add: world0_def account0_def)
  then have a: "one_per_identity ?w" "closure_ok ?w" "registered ?w 7 = []"
    by (simp_all add: one_per_identity_def closure_ok_def registered_def)
  have q: "one_per_identity (qr_handler ''XYZ'' ?w)" "closure_ok (qr_handler ''XYZ'' ?w)"
    using step_invariants(1,2) [OF a(1,2), of env_ok "Qr ''XYZ''"] by simp_all
  have k: "\<forall>w'. one_per_identity w' \<longrightarrow> one_per_identity ((\<lambda>w. w) w')" by simp
  from registry_one_session_per_identity [OF a(1,2),
      of "[(Qr ''XYZ'', env_ok), (Ready, env_ok), (Qr ''ABC'', env_ok), (Ready, env_sync_fails)]"]
    registry_one_session_per_identity [OF q, of "[]" "\<lambda>w. w" env_ok 7]
    a w k
  show ?thesis by simp
qed

text \<open>C10, as stated, fails: the promise can settle later. After \<^verbatim>\<open>initWbot\<close> on a fresh
  account, the first \<^verbatim>\<open>ready\<close> event's sync throws and the promise is pending; then the
  engine disconnects, the timer fires, the reconnection succeeds and the engine emits
  \<^verbatim>\<open>ready\<close> again: the same handler runs, its sync succeeds, line 189 calls
  \<^verbatim>\<open>resolve(wbot)\<close>, and the promise is resolved with the client.\<close>

theorem init_promise_resolves_later_counterexample:
  "fst (syncUnreadMessages env_sync_fails 1 (initWbot env_ok account0 1 world0)) =
     Inl (Thrown ''Evaluation failed'') \<and>
   promise (run [(Ready, env_sync_fails)] (initWbot env_ok account0 1 world0)) = Pending \<and>
   promise (run [(Ready, env_sync_fails), (Disconnected ''NAVIGATION'', env_ok),
                 (Timeout, env_ok), (Ready, env_ok)]
              (initWbot env_ok account0 1 world0)) = Resolved 1"
proof -
  let ?w = "initWbot env_ok account0 1 world0"
  have w: "promise ?w = Pending" "wbot ?w = 1"
    unfolding initWbot_env_ok by (simp_all add: world0_def)
  have bad: "fst (syncUnreadMessages env_sync_fails s w') = Inl (Thrown ''Evaluation failed'')"
    for s w'
    by (simp add: syncUnreadMessages_def env_sync_fails_def env_ok_def)
  have good: "fst (syncUnreadMessages env_ok s w') = Inr ()" for s w'
    by (simp add: syncUnreadMessages_def env_ok_def)
  let ?w1 = "run [(Ready, env_sync_fails)] ?w"
  have "?w1 = ready_handler env_sync_fails ?w" by simp
  moreover have "promise (ready_handler env_sync_fails ?w) = Pending"
    by (simp only: ready_handler_settles bad w sum.case)
  ultimately have p1: "promise ?w1 = Pending" by (simp only:)
  let ?w3 = "run [(Disconnected ''NAVIGATION'', env_ok), (Timeout, env_ok)] ?w1"
  have p3: "promise ?w3 = Pending"
    using run_promise [of "[(Disconnected ''NAVIGATION'', env_ok), (Timeout, env_ok)]" ?w1] p1
    by simp
  have b3: "wbot ?w3 = 1"
    by (simp only: run_wbot w)
  have "run [(Ready, env_sync_fails), (Disconnected ''NAVIGATION'', env_ok),
             (Timeout, env_ok), (Ready, env_ok)] ?w = ready_handler env_ok ?w3"
    by simp
  moreover have "promise (ready_handler env_ok ?w3) = Resolved 1"
    by (simp only: ready_handler_settles good p3 b3 sum.case) simp
  ultimately show ?thesis using bad p1 by simp
qed

text \<open>C10, amended. When the unread sync of a \<^verbatim>\<open>ready\<close> handler throws, the handler ends
  without settling the promise of \<^verbatim>\<open>initWbot\<close>: the promise is as before (a pending one is
  still pending) and the error is an unhandled rejection, although the account's status
  is already \<^verbatim>\<open>CONNECTED\<close> and the account's identity has a registry entry. No later event
  other than \<^verbatim>\<open>ready\<close> settles it, nor does a reconnection cycle; the next \<^verbatim>\<open>ready\<close> event
  whose sync succeeds resolves a pending promise with the client.\<close>

theorem ready_handler_sync_throws:
  assumes "fst (syncUnreadMessages env (wbot w) w) = Inl e"
  shows "promise (ready_handler env w) = promise w \<and>
    unhandled (ready_handler env w) = unhandled w @ [e] \<and>
    status (whatsapp (ready_handler env w)) = ''CONNECTED'' \<and>
    registered (ready_handler env w) (whatsapp_id (whatsapp w)) \<noteq> [] \<and>
    (list_all (\<lambda>(ev, env'). ev \<noteq> Ready) evs \<longrightarrow>
       promise (run evs (ready_handler env w)) = promise w) \<and>
    (list_all (\<lambda>(ev, env'). ev \<noteq> Ready) evs \<and> promise w = Pending \<and>
     fst (syncUnreadMessages env' (wbot w) w) = Inr () \<longrightarrow>
       promise (run (evs @ [(Ready, env')]) (ready_handler env w)) = Resolved (wbot w))"
proof -
  let ?w1 = "ready_handler env w"
  from assms have p: "promise ?w1 = promise w" and u: "unhandled ?w1 = unhandled w @ [e]"
    by (simp_all add: ready_handler_settles)
  have r: "registered ?w1 (whatsapp_id (whatsapp w)) \<noteq> []"
    using registerIfAbsent_nonempty [of w]
    by (simp add: registered_def ready_handler_fields)
  have later: "promise (run (evs @ [(Ready, env')]) ?w1) = Resolved (wbot w)"
    if "list_all (\<lambda>(ev, env'). ev \<noteq> Ready) evs" and "promise w = Pending"
      and "fst (syncUnreadMessages env' (wbot w) w) = Inr ()"
  proof -
    let ?w2 = "run evs ?w1"
    from that(1,2) p have "promise ?w2 = Pending" by (simp add: run_promise)
    moreover have "wbot ?w2 = wbot w" by (simp add: run_wbot ready_handler_fields)
    moreover from that(3) have "fst (syncUnreadMessages env' (wbot w) ?w2) = Inr ()"
      using syncUnreadMessages_result [of env' "wbot w" ?w2 "wbot w" w] by simp
    ultimately show ?thesis
      by (simp add: run_append ready_handler_settles)
  qed
  from p u r later show ?thesis
    by (simp add: run_promise ready_handler_fields)
qed

theorem ready_handler_sync_throws_witness:
  "fst (syncUnreadMessages env_sync_fails (wbot world0) world0) =
     Inl (Thrown ''Evaluation failed'') \<and>
   promise (ready_handler env_sync_fails world0) = Pending \<and>
   unhandled (ready_handler env_sync_fails world0) = [Thrown ''Evaluation failed''] \<and>
   status (whatsapp (ready_handler env_sync_fails world0)) = ''CONNECTED'' \<and>
   promise (run ([(Disconnected ''NAVIGATION'', env_ok), (Timeout, env_ok)] @ [(Ready, env_ok)])
              (ready_handler env_sync_fails world0)) = Resolved 1"
proof -
  have bad: "fst (syncUnreadMessages env_sync_fails (wbot world0) world0) =
      Inl (Thrown ''Evaluation failed'')"
    by (simp add: syncUnreadMessages_def env_sync_fails_def env_ok_def)
  have good: "fst (syncUnreadMessages env_ok (wbot world0) world0) = Inr ()"
    by (simp add: syncUnreadMessages_def env_ok_def)
  have w: "promise world0 = Pending" "unhandled world0 = []" "wbot world0 = 1"
    by (simp_all add: world0_def)
  from ready_handler_sync_throws [OF bad,
      of "[(Disconnected ''NAVIGATION'', env_ok), (Timeout, env_ok)]" env_ok] bad good w
  show ?thesis by simp
qed

end
